theory Spec2Isabelle
  imports Complex_Main
begin

section \<open>Shared data model\<close>

text \<open>
  Values of TypeScript type \<open>any\<close> that travel through \<open>Record<string, any>\<close> fields
  (document metadata, session inputs) and through the result of the agent-file parser.
  Numbers are restricted to integers; an object is the list of its own enumerable
  entries in enumeration order.
\<close>

datatype jsval =
    JUndefined
  | JNull
  | JBool bool
  | JNum int
  | JStr string
  | JArr "jsval list"
  | JObj "(string \<times> jsval) list"

text \<open>JavaScript default parameters: the default applies when the argument is omitted.\<close>

definition dflt :: "'a \<Rightarrow> 'a option \<Rightarrow> 'a" where
  "dflt d x = (case x of None \<Rightarrow> d | Some v \<Rightarrow> v)"

text \<open>Decimal rendering of an integer, as a template literal renders a number.\<close>

fun string_of_nat :: "nat \<Rightarrow> string" where
  "string_of_nat n =
     (if n < 10 then [''0123456789'' ! n]
      else string_of_nat (n div 10) @ [''0123456789'' ! (n mod 10)])"

declare string_of_nat.simps [simp del]

definition string_of_int :: "int \<Rightarrow> string" where
  "string_of_int i = (if i < 0 then CHR ''-'' # string_of_nat (nat (- i)) else string_of_nat (nat i))"

section \<open>Document version store (\<open>src/stores/story-file-store.ts\<close>)\<close>

record StoryFile =
  sf_id :: string
  sf_projectId :: string
  sf_filename :: string
  sf_content :: string
  sf_version :: int
  sf_metadata :: "string \<rightharpoonup> jsval"

record StoryFileVersion =
  v_id :: string
  v_storyFileId :: string
  v_version :: int
  v_content :: string
  v_metadata :: "string \<rightharpoonup> jsval"
  v_createdAt :: int
  v_createdBy :: string
  v_commitMessage :: string

datatype change_type = Add | Delete | Modify

record change =
  c_type :: change_type
  c_lineNumber :: nat
  c_content :: string

record StoryFileDiff =
  additions :: nat
  deletions :: nat
  changes :: "change list"

record StoryFileStore =
  storyFiles :: "string \<rightharpoonup> StoryFile"
  versions :: "string \<rightharpoonup> StoryFileVersion list"

datatype store_error =
    StoryFileNotFound string
  | VersionNotFound int string
  | VersionsNotFound

definition new_store :: StoryFileStore where
  "new_store = \<lparr>storyFiles = Map.empty, versions = Map.empty\<rparr>"

text \<open>
  \<open>createVersion\<close>: snapshot the document and push it onto the document's history.
  The generated version id and the clock reading are arguments.
\<close>

definition createVersion ::
  "StoryFileStore \<Rightarrow> StoryFile \<Rightarrow> string \<Rightarrow> string \<Rightarrow> string \<Rightarrow> int \<Rightarrow> StoryFileStore" where
  "createVersion s storyFile commitMessage createdBy genId now =
     (let version = \<lparr>v_id = genId, v_storyFileId = sf_id storyFile,
                      v_version = sf_version storyFile, v_content = sf_content storyFile,
                      v_metadata = sf_metadata storyFile, v_createdAt = now,
                      v_createdBy = createdBy, v_commitMessage = commitMessage\<rparr>;
          vs = (case versions s (sf_id storyFile) of None \<Rightarrow> [] | Some l \<Rightarrow> l)
      in s\<lparr>versions := (versions s)(sf_id storyFile \<mapsto> vs @ [version])\<rparr>)"

text \<open>
  \<open>createStoryFile\<close>: \<open>newId\<close> and \<open>verId\<close> are the two results of \<open>generateId\<close>, in call order.
\<close>

definition createStoryFile ::
  "StoryFileStore \<Rightarrow> string \<Rightarrow> string \<Rightarrow> string option \<Rightarrow> (string \<rightharpoonup> jsval) option \<Rightarrow>
   string option \<Rightarrow> string \<Rightarrow> string \<Rightarrow> int \<Rightarrow> StoryFile \<times> StoryFileStore" where
  "createStoryFile s projectId filename initialContent metadata createdBy newId verId now =
     (let storyFile = \<lparr>sf_id = newId, sf_projectId = projectId, sf_filename = filename,
                        sf_content = dflt [] initialContent, sf_version = 1,
                        sf_metadata = dflt Map.empty metadata\<rparr>;
          s1 = s\<lparr>storyFiles := (storyFiles s)(newId \<mapsto> storyFile)\<rparr>;
          s2 = createVersion s1 storyFile ''Initial creation'' (dflt ''system'' createdBy) verId now
      in (storyFile, s2))"

definition updateStoryFile ::
  "StoryFileStore \<Rightarrow> string \<Rightarrow> string \<Rightarrow> string option \<Rightarrow> string option \<Rightarrow>
   (string \<rightharpoonup> jsval) option \<Rightarrow> string \<Rightarrow> int \<Rightarrow> (store_error + StoryFile) \<times> StoryFileStore" where
  "updateStoryFile s storyFileId newContent commitMessage updatedBy metadata verId now =
     (case storyFiles s storyFileId of
        None \<Rightarrow> (Inl (StoryFileNotFound storyFileId), s)
      | Some storyFile \<Rightarrow>
          if sf_content storyFile = newContent then (Inr storyFile, s)
          else
            let storyFile' = storyFile\<lparr>sf_content := newContent,
                                        sf_version := sf_version storyFile + 1,
                                        sf_metadata := sf_metadata storyFile ++ dflt Map.empty metadata\<rparr>;
                s1 = s\<lparr>storyFiles := (storyFiles s)(storyFileId \<mapsto> storyFile')\<rparr>;
                s2 = createVersion s1 storyFile' (dflt ''Updated content'' commitMessage)
                       (dflt ''system'' updatedBy) verId now
            in (Inr storyFile', s2))"

definition getStoryFile :: "StoryFileStore \<Rightarrow> string \<Rightarrow> StoryFile option" where
  "getStoryFile s storyFileId = storyFiles s storyFileId"

definition getVersions :: "StoryFileStore \<Rightarrow> string \<Rightarrow> StoryFileVersion list" where
  "getVersions s storyFileId = (case versions s storyFileId of None \<Rightarrow> [] | Some vs \<Rightarrow> vs)"

definition getVersion :: "StoryFileStore \<Rightarrow> string \<Rightarrow> int \<Rightarrow> StoryFileVersion option" where
  "getVersion s storyFileId version =
     (let vs = (case versions s storyFileId of None \<Rightarrow> [] | Some l \<Rightarrow> l)
      in find (\<lambda>v. v_version v = version) vs)"

definition revertToVersion ::
  "StoryFileStore \<Rightarrow> string \<Rightarrow> int \<Rightarrow> string option \<Rightarrow> string option \<Rightarrow> string \<Rightarrow> int \<Rightarrow>
   (store_error + StoryFile) \<times> StoryFileStore" where
  "revertToVersion s storyFileId targetVersion commitMessage revertedBy verId now =
     (case getVersion s storyFileId targetVersion of
        None \<Rightarrow> (Inl (VersionNotFound targetVersion storyFileId), s)
      | Some targetVersionData \<Rightarrow>
          updateStoryFile s storyFileId (v_content targetVersionData)
            (Some (dflt (''Reverted to version '' @ string_of_int targetVersion) commitMessage))
            (Some (dflt ''system'' revertedBy))
            (Some [''revertedFrom'' \<mapsto> JNum targetVersion]) verId now)"

definition deleteStoryFile :: "StoryFileStore \<Rightarrow> string \<Rightarrow> bool \<times> StoryFileStore" where
  "deleteStoryFile s storyFileId =
     (let deleted = (storyFiles s storyFileId \<noteq> None);
          s1 = s\<lparr>storyFiles := (storyFiles s)(storyFileId := None)\<rparr>
      in if deleted then (True, s1\<lparr>versions := (versions s1)(storyFileId := None)\<rparr>)
         else (False, s1))"

text \<open>
  \<open>String.prototype.split\<close> with a one-character separator: the empty string splits
  into one empty piece, and a trailing separator leaves a trailing empty piece.
\<close>

fun split_on :: "char \<Rightarrow> string \<Rightarrow> string list" where
  "split_on sep [] = [] # []"
| "split_on sep (x # xs) =
     (if x = sep then [] # split_on sep xs
      else (case split_on sep xs of [] \<Rightarrow> [x] # [] | l # ls \<Rightarrow> (x # l) # ls))"

text \<open>Array indexing: an index past the end reads \<open>undefined\<close>.\<close>

definition nth_opt :: "'a list \<Rightarrow> nat \<Rightarrow> 'a option" where
  "nth_opt xs i = (if i < length xs then Some (xs ! i) else None)"

definition diff_step :: "string list \<Rightarrow> string list \<Rightarrow> nat \<Rightarrow> StoryFileDiff \<Rightarrow> StoryFileDiff" where
  "diff_step oldLines newLines i d =
     (case (nth_opt oldLines i, nth_opt newLines i) of
        (None, Some newLine) \<Rightarrow>
          d\<lparr>changes := changes d @ [\<lparr>c_type = Add, c_lineNumber = i + 1, c_content = newLine\<rparr>],
            additions := additions d + 1\<rparr>
      | (Some oldLine, None) \<Rightarrow>
          d\<lparr>changes := changes d @ [\<lparr>c_type = Delete, c_lineNumber = i + 1, c_content = oldLine\<rparr>],
            deletions := deletions d + 1\<rparr>
      | (Some oldLine, Some newLine) \<Rightarrow>
          if oldLine \<noteq> newLine then
            d\<lparr>changes := changes d @ [\<lparr>c_type = Modify, c_lineNumber = i + 1, c_content = newLine\<rparr>],
              additions := additions d + 1, deletions := deletions d + 1\<rparr>
          else d
      | (None, None) \<Rightarrow> d)"

function diff_loop :: "string list \<Rightarrow> string list \<Rightarrow> nat \<Rightarrow> nat \<Rightarrow> StoryFileDiff \<Rightarrow> StoryFileDiff" where
  "diff_loop oldLines newLines maxLines i d =
     (if i < maxLines then diff_loop oldLines newLines maxLines (i + 1) (diff_step oldLines newLines i d)
      else d)"
  by pat_completeness auto
termination
  by (relation "measure (\<lambda>(oldLines, newLines, maxLines, i, d). maxLines - i)") auto

declare diff_loop.simps [simp del]

definition computeSimpleDiff :: "string \<Rightarrow> string \<Rightarrow> StoryFileDiff" where
  "computeSimpleDiff oldContent newContent =
     (let oldLines = split_on (CHR 0x0A) oldContent;
          newLines = split_on (CHR 0x0A) newContent;
          maxLines = max (length oldLines) (length newLines)
      in diff_loop oldLines newLines maxLines 0 \<lparr>additions = 0, deletions = 0, changes = []\<rparr>)"

definition getDiff :: "StoryFileStore \<Rightarrow> string \<Rightarrow> int \<Rightarrow> int \<Rightarrow> store_error + StoryFileDiff" where
  "getDiff s storyFileId fromVersion toVersion =
     (case (getVersion s storyFileId fromVersion, getVersion s storyFileId toVersion) of
        (Some fromVersionData, Some toVersionData) \<Rightarrow>
          Inr (computeSimpleDiff (v_content fromVersionData) (v_content toVersionData))
      | _ \<Rightarrow> Inl VersionsNotFound)"

subsection \<open>Histories of store calls\<close>

text \<open>
  One mutating call on the store, with its arguments and with what the environment
  supplied to it (generated ids, clock reading).
\<close>

datatype store_op =
    Create string string "string option" "(string \<rightharpoonup> jsval) option" "string option" string string int
  | Update string string "string option" "string option" "(string \<rightharpoonup> jsval) option" string int
  | Revert string int "string option" "string option" string int
  | Remove string

fun exec :: "StoryFileStore \<Rightarrow> store_op \<Rightarrow> StoryFileStore" where
  "exec s (Create projectId filename initialContent metadata createdBy newId verId now) =
     snd (createStoryFile s projectId filename initialContent metadata createdBy newId verId now)"
| "exec s (Update storyFileId newContent commitMessage updatedBy metadata verId now) =
     snd (updateStoryFile s storyFileId newContent commitMessage updatedBy metadata verId now)"
| "exec s (Revert storyFileId targetVersion commitMessage revertedBy verId now) =
     snd (revertToVersion s storyFileId targetVersion commitMessage revertedBy verId now)"
| "exec s (Remove storyFileId) = snd (deleteStoryFile s storyFileId)"

definition run :: "store_op list \<Rightarrow> StoryFileStore" where
  "run ops = foldl exec new_store ops"

text \<open>
  \<open>generateId\<close> concatenates the clock and a random number, so nothing in the store
  prevents it from returning an id in use. \<open>fresh_from s ops\<close> says that along \<open>ops\<close>,
  started in \<open>s\<close>, every \<open>Create\<close> received an id that no stored document had.
\<close>

fun fresh_from :: "StoryFileStore \<Rightarrow> store_op list \<Rightarrow> bool" where
  "fresh_from s [] = True"
| "fresh_from s (Create p f c m b newId verId now # ops) =
     (storyFiles s newId = None \<and> fresh_from (exec s (Create p f c m b newId verId now)) ops)"
| "fresh_from s (opn # ops) = fresh_from (exec s opn) ops"

text \<open>The successful, content-changing updates of document \<open>i\<close> (a revert is an update).\<close>

fun content_changing :: "StoryFileStore \<Rightarrow> store_op \<Rightarrow> string \<Rightarrow> bool" where
  "content_changing s (Update storyFileId newContent _ _ _ _ _) i =
     (storyFileId = i \<and>
      (case storyFiles s i of None \<Rightarrow> False | Some sf \<Rightarrow> sf_content sf \<noteq> newContent))"
| "content_changing s (Revert storyFileId targetVersion _ _ _ _) i =
     (storyFileId = i \<and>
      (case (getVersion s i targetVersion, storyFiles s i) of
         (Some tv, Some sf) \<Rightarrow> sf_content sf \<noteq> v_content tv
       | _ \<Rightarrow> False))"
| "content_changing s _ i = False"

fun creates :: "store_op \<Rightarrow> string \<Rightarrow> bool" where
  "creates (Create _ _ _ _ _ newId _ _) i = (newId = i)"
| "creates _ i = False"

text \<open>
  Number of successful content-changing updates of document \<open>i\<close> since it was created,
  along \<open>ops\<close> started in \<open>s\<close>, where \<open>n\<close> of them have happened before.
\<close>

fun updates_since_create :: "StoryFileStore \<Rightarrow> store_op list \<Rightarrow> string \<Rightarrow> nat \<Rightarrow> nat" where
  "updates_since_create s [] i n = n"
| "updates_since_create s (opn # ops) i n =
     updates_since_create (exec s opn) ops i
       (if creates opn i then 0 else if content_changing s opn i then n + 1 else n)"

text \<open>Adjacent entries of a list differ.\<close>

fun no_repeat :: "'a list \<Rightarrow> bool" where
  "no_repeat (x # y # zs) = (x \<noteq> y \<and> no_repeat (y # zs))"
| "no_repeat _ = True"

text \<open>
  The store invariant: documents and histories have the same keys; a document is filed
  under its own id; its history is non-empty, numbered 1, 2, ... without gaps, ends with
  the document's current version and content, and holds no two adjacent snapshots with
  the same content.
\<close>

definition doc_ok :: "string \<Rightarrow> StoryFile \<Rightarrow> StoryFileVersion list \<Rightarrow> bool" where
  "doc_ok i sf vs =
     (sf_id sf = i \<and> vs \<noteq> [] \<and>
      map v_version vs = map int [1..<Suc (length vs)] \<and>
      sf_version sf = int (length vs) \<and>
      v_content (last vs) = sf_content sf \<and>
      no_repeat (map v_content vs))"

definition store_inv :: "StoryFileStore \<Rightarrow> bool" where
  "store_inv s =
     (\<forall>i. case storyFiles s i of
            None \<Rightarrow> versions s i = None
          | Some sf \<Rightarrow> (case versions s i of None \<Rightarrow> False | Some vs \<Rightarrow> doc_ok i sf vs))"

text \<open>Bookkeeping over a history: which calls create or delete document \<open>i\<close>.\<close>

fun removes :: "store_op \<Rightarrow> string \<Rightarrow> bool" where
  "removes (Remove k) i = (k = i)"
| "removes _ i = False"

text \<open>
  \<open>live_after False ops i\<close>: along \<open>ops\<close>, document \<open>i\<close> was created and not deleted since.
\<close>

fun live_after :: "bool \<Rightarrow> store_op list \<Rightarrow> string \<Rightarrow> bool" where
  "live_after b [] i = b"
| "live_after b (opn # ops) i =
     live_after (if creates opn i then True else if removes opn i then False else b) ops i"

text \<open>
  The part of the invariant that needs no assumption on generated ids: a history exists
  only for a stored document, and a document is filed under its own id.
\<close>

definition keys_agree :: "StoryFileStore \<Rightarrow> bool" where
  "keys_agree s =
     ((\<forall>i. storyFiles s i = None \<longrightarrow> versions s i = None) \<and>
      (\<forall>i sf. storyFiles s i = Some sf \<longrightarrow> sf_id sf = i))"

definition demo_ops :: "store_op list" where
  "demo_ops =
     [Create ''p1'' ''ch1.md'' (Some ''a'') None None ''d1'' ''g1'' 100,
      Remove ''d1'']"

text \<open>The document as a content-changing \<open>updateStoryFile\<close> leaves it.\<close>

definition updated :: "StoryFile \<Rightarrow> string \<Rightarrow> (string \<rightharpoonup> jsval) option \<Rightarrow> StoryFile" where
  "updated sf c m = sf\<lparr>sf_content := c, sf_version := sf_version sf + 1,
                        sf_metadata := sf_metadata sf ++ dflt Map.empty m\<rparr>"

text \<open>A two-call history used as a concrete input: create a document, then extend it by a line.\<close>

definition edit_ops :: "store_op list" where
  "edit_ops =
     [Create ''p1'' ''ch1.md'' (Some (''line1'' @ [CHR 0x0A] @ ''line2'')) None None ''d1'' ''g1'' 100,
      Update ''d1'' (''line1'' @ [CHR 0x0A] @ ''line2'' @ [CHR 0x0A] @ ''line3'') None None None ''g2'' 200]"

text \<open>
  The diff as the specification words it, one line index at a time: a line only on the
  new side is an addition, a line only on the old side a deletion, two differing lines a
  modification, which counts as one addition and one deletion.
\<close>

definition spec_line_change :: "string list \<Rightarrow> string list \<Rightarrow> nat \<Rightarrow> change list" where
  "spec_line_change oldLines newLines i =
     (if length oldLines \<le> i \<and> i < length newLines then
        [\<lparr>c_type = Add, c_lineNumber = i + 1, c_content = newLines ! i\<rparr>]
      else if i < length oldLines \<and> length newLines \<le> i then
        [\<lparr>c_type = Delete, c_lineNumber = i + 1, c_content = oldLines ! i\<rparr>]
      else if i < length oldLines \<and> i < length newLines \<and> oldLines ! i \<noteq> newLines ! i then
        [\<lparr>c_type = Modify, c_lineNumber = i + 1, c_content = newLines ! i\<rparr>]
      else [])"

definition counts_addition :: "change \<Rightarrow> bool" where
  "counts_addition c = (c_type c = Add \<or> c_type c = Modify)"

definition counts_deletion :: "change \<Rightarrow> bool" where
  "counts_deletion c = (c_type c = Delete \<or> c_type c = Modify)"

text \<open>The same history followed by a revert to version 1.\<close>

definition revert_ops :: "store_op list" where
  "revert_ops = edit_ops @ [Revert ''d1'' 1 None None ''g3'' 300]"

text \<open>
  A history in which \<open>generateId\<close> returned the id \<open>d1\<close> for two created documents with
  the same initial content.
\<close>

definition clash_ops :: "store_op list" where
  "clash_ops =
     [Create ''p1'' ''a.md'' (Some ''a'') None None ''d1'' ''g1'' 100,
      Create ''p1'' ''b.md'' (Some ''a'') None None ''d1'' ''g2'' 200]"

section \<open>Provider gateway (\<open>LLMProviderManager\<close> and its providers)\<close>

datatype cost_priority = Fast | Balanced | Quality

record LLMOptions =
  lo_maxTokens :: "real option"
  lo_temperature :: "real option"
  lo_model :: "string option"
  lo_costPriority :: "cost_priority option"
  lo_preferredProvider :: "string option"

record ResponseMetadata =
  rm_model :: string
  rm_provider :: string
  rm_latency :: real

record LLMResponse =
  lr_text :: string
  lr_tokensUsed :: real
  lr_cost :: real
  lr_metadata :: ResponseMetadata

datatype gateway_error = ProviderFailure string | AllProvidersFailed

text \<open>
  The \<open>LLMProvider\<close> interface. A call of \<open>generateText\<close> either resolves to a
  response or rejects with an error.
\<close>

record LLMProvider =
  p_name :: string
  p_generateText :: "string \<Rightarrow> LLMOptions \<Rightarrow> gateway_error + LLMResponse"
  p_estimateTokens :: "string \<Rightarrow> nat"

text \<open>The shape the three API placeholders are read at (\<open>response.text\<close>, \<open>response.usage\<close>).\<close>

record ApiResponse =
  api_text :: string
  api_total_tokens :: real
  api_input_tokens :: real
  api_output_tokens :: real

text \<open>\<open>x || d\<close> on an optional number: the default also replaces 0.\<close>

definition or_default :: "real \<Rightarrow> real option \<Rightarrow> real" where
  "or_default d x = (case x of None \<Rightarrow> d | Some v \<Rightarrow> if v = 0 then d else v)"

text \<open>\<open>Math.ceil(text.length / 4)\<close>.\<close>

definition ceil_quarter_length :: "string \<Rightarrow> nat" where
  "ceil_quarter_length text = (length text + 3) div 4"

subsection \<open>The three providers\<close>

text \<open>
  Each provider's API call is a placeholder that always throws. \<open>latency\<close> stands for
  the elapsed time \<open>Date.now() - startTime\<close> that would be measured after the call.
\<close>

definition OpenAI_mapCostPriorityToModel :: "cost_priority \<Rightarrow> string" where
  "OpenAI_mapCostPriorityToModel priority =
     (case priority of Fast \<Rightarrow> ''gpt-3.5-turbo'' | Quality \<Rightarrow> ''gpt-4'' | _ \<Rightarrow> ''gpt-3.5-turbo'')"

definition callOpenAI :: "string \<Rightarrow> string \<Rightarrow> real \<Rightarrow> real \<Rightarrow> gateway_error + ApiResponse" where
  "callOpenAI prompt model max_tokens temperature =
     Inl (ProviderFailure ''OpenAI API call not implemented'')"

definition OpenAI_generateText :: "real \<Rightarrow> string \<Rightarrow> LLMOptions \<Rightarrow> gateway_error + LLMResponse" where
  "OpenAI_generateText latency prompt options =
     (let model = OpenAI_mapCostPriorityToModel (dflt Balanced (lo_costPriority options))
      in case callOpenAI prompt model (or_default 1000 (lo_maxTokens options))
                (or_default (7/10) (lo_temperature options)) of
           Inl e \<Rightarrow> Inl e
         | Inr response \<Rightarrow>
             Inr \<lparr>lr_text = api_text response, lr_tokensUsed = api_total_tokens response,
                  lr_cost = 1/100,
                  lr_metadata = \<lparr>rm_model = model, rm_provider = ''OpenAI'', rm_latency = latency\<rparr>\<rparr>)"

definition OpenAIProvider :: "real \<Rightarrow> LLMProvider" where
  "OpenAIProvider latency =
     \<lparr>p_name = ''OpenAI'', p_generateText = OpenAI_generateText latency,
      p_estimateTokens = ceil_quarter_length\<rparr>"

definition Anthropic_mapCostPriorityToModel :: "cost_priority \<Rightarrow> string" where
  "Anthropic_mapCostPriorityToModel priority =
     (case priority of Fast \<Rightarrow> ''claude-3-haiku-20240307'' | Quality \<Rightarrow> ''claude-3-opus-20240229''
      | _ \<Rightarrow> ''claude-3-sonnet-20240229'')"

definition callAnthropic :: "string \<Rightarrow> string \<Rightarrow> real \<Rightarrow> real \<Rightarrow> gateway_error + ApiResponse" where
  "callAnthropic prompt model max_tokens temperature =
     Inl (ProviderFailure ''Anthropic API call not implemented'')"

definition Anthropic_generateText :: "real \<Rightarrow> string \<Rightarrow> LLMOptions \<Rightarrow> gateway_error + LLMResponse" where
  "Anthropic_generateText latency prompt options =
     (let model = Anthropic_mapCostPriorityToModel (dflt Balanced (lo_costPriority options))
      in case callAnthropic prompt model (or_default 1000 (lo_maxTokens options))
                (or_default (7/10) (lo_temperature options)) of
           Inl e \<Rightarrow> Inl e
         | Inr response \<Rightarrow>
             Inr \<lparr>lr_text = api_text response,
                  lr_tokensUsed = api_input_tokens response + api_output_tokens response,
                  lr_cost = 2/100,
                  lr_metadata = \<lparr>rm_model = model, rm_provider = ''Anthropic'', rm_latency = latency\<rparr>\<rparr>)"

definition AnthropicProvider :: "real \<Rightarrow> LLMProvider" where
  "AnthropicProvider latency =
     \<lparr>p_name = ''Anthropic'', p_generateText = Anthropic_generateText latency,
      p_estimateTokens = ceil_quarter_length\<rparr>"

definition Gemini_mapCostPriorityToModel :: "cost_priority \<Rightarrow> string" where
  "Gemini_mapCostPriorityToModel priority =
     (case priority of Fast \<Rightarrow> ''gemini-pro'' | Quality \<Rightarrow> ''gemini-pro-vision'' | _ \<Rightarrow> ''gemini-pro'')"

definition callGemini :: "string \<Rightarrow> string \<Rightarrow> real \<Rightarrow> real \<Rightarrow> gateway_error + ApiResponse" where
  "callGemini prompt model max_tokens temperature =
     Inl (ProviderFailure ''Gemini API call not implemented'')"

definition Gemini_generateText :: "real \<Rightarrow> string \<Rightarrow> LLMOptions \<Rightarrow> gateway_error + LLMResponse" where
  "Gemini_generateText latency prompt options =
     (let model = Gemini_mapCostPriorityToModel (dflt Balanced (lo_costPriority options))
      in case callGemini prompt model (or_default 1000 (lo_maxTokens options))
                (or_default (7/10) (lo_temperature options)) of
           Inl e \<Rightarrow> Inl e
         | Inr response \<Rightarrow>
             Inr \<lparr>lr_text = api_text response, lr_tokensUsed = api_total_tokens response,
                  lr_cost = 1/1000,
                  lr_metadata = \<lparr>rm_model = model, rm_provider = ''Gemini'', rm_latency = latency\<rparr>\<rparr>)"

definition GeminiProvider :: "real \<Rightarrow> LLMProvider" where
  "GeminiProvider latency =
     \<lparr>p_name = ''Gemini'', p_generateText = Gemini_generateText latency,
      p_estimateTokens = ceil_quarter_length\<rparr>"

subsection \<open>The manager\<close>

record LLMProviderManager =
  providers :: "string \<rightharpoonup> LLMProvider"
  fallbackOrder :: "string list"

definition new_manager :: "real \<Rightarrow> LLMProviderManager" where
  "new_manager latency =
     \<lparr>providers = [''Gemini'' \<mapsto> GeminiProvider latency, ''OpenAI'' \<mapsto> OpenAIProvider latency,
                   ''Anthropic'' \<mapsto> AnthropicProvider latency],
      fallbackOrder = [''Gemini'', ''OpenAI'', ''Anthropic'']\<rparr>"

text \<open>
  What one \<open>generateText\<close> call of the manager does to the outside: the provider calls
  it makes and the warnings it logs, in order.
\<close>

datatype gateway_event = Call string | Warn string gateway_error

text \<open>The ordered list the loop runs over (\<open>providersToTry\<close>); an empty name is falsy.\<close>

definition providersToTry :: "LLMProviderManager \<Rightarrow> LLMOptions \<Rightarrow> string list" where
  "providersToTry mgr options =
     (case lo_preferredProvider options of
        None \<Rightarrow> fallbackOrder mgr
      | Some preferred \<Rightarrow>
          if preferred \<noteq> [] then preferred # filter (\<lambda>p. p \<noteq> preferred) (fallbackOrder mgr)
          else fallbackOrder mgr)"

text \<open>
  The \<open>for\<close> loop: an unregistered name is skipped, the first resolved call returns,
  a rejected call is logged and the loop goes on; after the loop the manager throws.
\<close>

fun try_providers ::
  "(string \<rightharpoonup> LLMProvider) \<Rightarrow> string \<Rightarrow> LLMOptions \<Rightarrow> string list \<Rightarrow>
   gateway_event list \<times> (gateway_error + LLMResponse)" where
  "try_providers ps prompt options [] = ([], Inl AllProvidersFailed)"
| "try_providers ps prompt options (providerName # rest) =
     (case ps providerName of
        None \<Rightarrow> try_providers ps prompt options rest
      | Some provider \<Rightarrow>
          (case p_generateText provider prompt options of
             Inr response \<Rightarrow> ([Call providerName], Inr response)
           | Inl error \<Rightarrow>
               (let (events, result) = try_providers ps prompt options rest
                in (Call providerName # Warn providerName error # events, result))))"

definition generateText ::
  "LLMProviderManager \<Rightarrow> string \<Rightarrow> LLMOptions \<Rightarrow> gateway_event list \<times> (gateway_error + LLMResponse)" where
  "generateText mgr prompt options =
     try_providers (providers mgr) prompt options (providersToTry mgr options)"

definition manager_estimateTokens :: "LLMProviderManager \<Rightarrow> string \<Rightarrow> string option \<Rightarrow> nat" where
  "manager_estimateTokens mgr text providerName =
     (case providers mgr (dflt ''OpenAI'' providerName) of
        Some provider \<Rightarrow> p_estimateTokens provider text
      | None \<Rightarrow> ceil_quarter_length text)"

definition registered :: "LLMProviderManager \<Rightarrow> string \<Rightarrow> bool" where
  "registered mgr n = (providers mgr n \<noteq> None)"

text \<open>Reading the event list: the names of the providers called, in order.\<close>

fun calls_of :: "gateway_event list \<Rightarrow> string list" where
  "calls_of [] = []"
| "calls_of (Call n # evs) = n # calls_of evs"
| "calls_of (Warn n e # evs) = calls_of evs"

text \<open>The outcome of calling the provider registered under a name.\<close>

definition call_provider ::
  "LLMProviderManager \<Rightarrow> string \<Rightarrow> LLMOptions \<Rightarrow> string \<Rightarrow> (gateway_error + LLMResponse) option" where
  "call_provider mgr prompt options n =
     (case providers mgr n of None \<Rightarrow> None | Some p \<Rightarrow> Some (p_generateText p prompt options))"

definition succeeds :: "LLMProviderManager \<Rightarrow> string \<Rightarrow> LLMOptions \<Rightarrow> string \<Rightarrow> bool" where
  "succeeds mgr prompt options n =
     (case call_provider mgr prompt options n of Some (Inr r) \<Rightarrow> True | _ \<Rightarrow> False)"

text \<open>
  The attempt list as the specification words it: the preferred provider, if given and
  registered, first; then the remaining registered providers in fallback order.
\<close>

definition spec_attempt_list :: "LLMProviderManager \<Rightarrow> LLMOptions \<Rightarrow> string list" where
  "spec_attempt_list mgr options =
     (case lo_preferredProvider options of
        None \<Rightarrow> filter (registered mgr) (fallbackOrder mgr)
      | Some preferred \<Rightarrow>
          if preferred \<noteq> [] \<and> registered mgr preferred
          then preferred # filter (\<lambda>p. p \<noteq> preferred \<and> registered mgr p) (fallbackOrder mgr)
          else filter (registered mgr) (fallbackOrder mgr))"

text \<open>Test doubles: a provider that resolves to a fixed response, and one that rejects.\<close>

definition fake_response :: "string \<Rightarrow> LLMResponse" where
  "fake_response n =
     \<lparr>lr_text = ''ok'', lr_tokensUsed = 3, lr_cost = 0,
      lr_metadata = \<lparr>rm_model = ''fake'', rm_provider = n, rm_latency = 1\<rparr>\<rparr>"

definition resolving_provider :: "string \<Rightarrow> LLMProvider" where
  "resolving_provider n =
     \<lparr>p_name = n, p_generateText = (\<lambda>prompt options. Inr (fake_response n)),
      p_estimateTokens = ceil_quarter_length\<rparr>"

definition rejecting_provider :: "string \<Rightarrow> LLMProvider" where
  "rejecting_provider n =
     \<lparr>p_name = n, p_generateText = (\<lambda>prompt options. Inl (ProviderFailure ''down'')),
      p_estimateTokens = ceil_quarter_length\<rparr>"

definition fake_manager :: LLMProviderManager where
  "fake_manager =
     \<lparr>providers = [''Gemini'' \<mapsto> rejecting_provider ''Gemini'', ''OpenAI'' \<mapsto> resolving_provider ''OpenAI'',
                   ''Anthropic'' \<mapsto> rejecting_provider ''Anthropic''],
      fallbackOrder = [''Gemini'', ''OpenAI'', ''Anthropic'']\<rparr>"

definition preferring :: "string \<Rightarrow> LLMOptions" where
  "preferring n = \<lparr>lo_maxTokens = None, lo_temperature = None, lo_model = None,
               lo_costPriority = None, lo_preferredProvider = Some n\<rparr>"

definition no_options :: LLMOptions where
  "no_options = \<lparr>lo_maxTokens = None, lo_temperature = None, lo_model = None,
                  lo_costPriority = None, lo_preferredProvider = None\<rparr>"

section \<open>Sessions and the usage monitor (\<open>src/monitoring/usage-monitor.ts\<close>)\<close>

text \<open>
  \<open>AgentSession\<close> is declared in \<open>src/services/orchestration-service.ts\<close>. JavaScript
  numbers are taken as real numbers, and a \<open>Date\<close> as its millisecond count.
\<close>

record LLMMetadata =
  lm_provider :: string
  lm_model :: string
  lm_tokensUsed :: real
  lm_cost :: real
  lm_latency :: real

record AgentSession =
  as_id :: string
  as_agentId :: string
  as_userId :: string
  as_projectId :: string
  as_storyFileId :: string
  as_inputs :: "(string \<times> jsval) list"
  as_outputs :: "(string \<times> jsval) list"
  as_llmMetadata :: LLMMetadata
  as_createdAt :: int
  as_updatedAt :: int




text \<open>The monitor's own mutable fields (the three service references are not read here).\<close>

record UsageMonitor =
  sessionMetrics :: "AgentSession list"
  errorCount :: nat
  totalRequests :: nat

definition new_monitor :: UsageMonitor where
  "new_monitor = \<lparr>sessionMetrics = [], errorCount = 0, totalRequests = 0\<rparr>"

text \<open>\<open>xs.slice(-n)\<close>: the last \<open>n\<close> elements, all of them when there are fewer.\<close>

definition slice_last :: "nat \<Rightarrow> 'a list \<Rightarrow> 'a list" where
  "slice_last n xs = drop (length xs - n) xs"

definition recordSession :: "UsageMonitor \<Rightarrow> AgentSession \<Rightarrow> UsageMonitor" where
  "recordSession m session =
     (let m1 = m\<lparr>sessionMetrics := sessionMetrics m @ [session]\<rparr>;
          m2 = m1\<lparr>totalRequests := totalRequests m1 + 1\<rparr>
      in if length (sessionMetrics m2) > 1000
         then m2\<lparr>sessionMetrics := slice_last 1000 (sessionMetrics m2)\<rparr>
         else m2)"











text \<open>A session with the given id, time stamp and usage figures, for concrete inputs.\<close>

definition mk_session :: "string \<Rightarrow> string \<Rightarrow> int \<Rightarrow> real \<Rightarrow> real \<Rightarrow> real \<Rightarrow> AgentSession" where
  "mk_session sid agent created tokens cost latency =
     \<lparr>as_id = sid, as_agentId = agent, as_userId = ''anonymous'', as_projectId = ''default'',
      as_storyFileId = ''default'', as_inputs = [], as_outputs = [],
      as_llmMetadata = \<lparr>lm_provider = ''Gemini'', lm_model = ''gemini-pro'', lm_tokensUsed = tokens,
                         lm_cost = cost, lm_latency = latency\<rparr>,
      as_createdAt = created, as_updatedAt = created\<rparr>"



section \<open>Agent loader and prompt composition (\<open>src/services/orchestration-service.ts\<close>)\<close>

subsection \<open>JavaScript values and strings\<close>

text \<open>
  Strings are lists of 8-bit characters; white space is the ASCII white space of
  \<open>String.prototype.trim\<close> and of the regular expression class \<open>\s\<close>.
\<close>

datatype js_error =
    TypeError string
  | FsError string
  | AgentNotFound string

definition js_ws :: "char \<Rightarrow> bool" where
  "js_ws c = (c \<in> set [CHR 0x09, CHR 0x0A, CHR 0x0B, CHR 0x0C, CHR 0x0D, CHR 0x20])"

definition js_trim :: "string \<Rightarrow> string" where
  "js_trim s = rev (dropWhile js_ws (rev (dropWhile js_ws s)))"

definition starts_with :: "string \<Rightarrow> string \<Rightarrow> bool" where
  "starts_with s pre = (take (length pre) s = pre)"

definition ends_with :: "string \<Rightarrow> string \<Rightarrow> bool" where
  "ends_with s suf = (length suf \<le> length s \<and> drop (length s - length suf) s = suf)"

text \<open>\<open>Array.prototype.join\<close> on strings.\<close>

fun join_with :: "string \<Rightarrow> string list \<Rightarrow> string" where
  "join_with sep [] = []"
| "join_with sep [x] = x"
| "join_with sep (x # y # ys) = x @ sep @ join_with sep (y # ys)"

text \<open>Truthiness, as \<open>||\<close> and \<open>if\<close> test it.\<close>

fun truthy :: "jsval \<Rightarrow> bool" where
  "truthy JUndefined = False"
| "truthy JNull = False"
| "truthy (JBool b) = b"
| "truthy (JNum n) = (n \<noteq> 0)"
| "truthy (JStr s) = (s \<noteq> [])"
| "truthy (JArr xs) = True"
| "truthy (JObj kvs) = True"

definition js_or :: "jsval \<Rightarrow> jsval \<Rightarrow> jsval" where
  "js_or a b = (if truthy a then a else b)"

text \<open>
  Conversion to a string inside a template literal. A plain object renders as
  \<open>[object Object]\<close>; an object with an own \<open>toString\<close> entry (never a function here)
  cannot be converted. Array elements \<open>undefined\<close> and \<open>null\<close> render empty.
\<close>

fun collect :: "(js_error + string) list \<Rightarrow> js_error + string list" where
  "collect [] = Inr []"
| "collect (Inl e # rs) = Inl e"
| "collect (Inr s # rs) = (case collect rs of Inl e \<Rightarrow> Inl e | Inr ss \<Rightarrow> Inr (s # ss))"

fun to_string :: "jsval \<Rightarrow> js_error + string"
  and element_string :: "jsval \<Rightarrow> js_error + string" where
  "to_string JUndefined = Inr ''undefined''"
| "to_string JNull = Inr ''null''"
| "to_string (JBool b) = Inr (if b then ''true'' else ''false'')"
| "to_string (JNum n) = Inr (string_of_int n)"
| "to_string (JStr s) = Inr s"
| "to_string (JArr xs) =
     (case collect (map element_string xs) of Inl e \<Rightarrow> Inl e | Inr ss \<Rightarrow> Inr (join_with '','' ss))"
| "to_string (JObj kvs) =
     (if ''toString'' \<in> set (map fst kvs)
      then Inl (TypeError ''Cannot convert object to primitive value'')
      else Inr ''[object Object]'')"
| "element_string JUndefined = Inr []"
| "element_string JNull = Inr []"
| "element_string (JBool b) = to_string (JBool b)"
| "element_string (JNum n) = to_string (JNum n)"
| "element_string (JStr s) = to_string (JStr s)"
| "element_string (JArr xs) = to_string (JArr xs)"
| "element_string (JObj kvs) = to_string (JObj kvs)"

text \<open>
  Property read \<open>v.k\<close> for the property names this file reads (\<open>agent\<close>, \<open>id\<close>, \<open>name\<close>,
  \<open>title\<close>, \<open>persona\<close>, \<open>role\<close>, \<open>style\<close>, \<open>core_principles\<close>, ...), none of which is
  inherited: an object gives its own entry or \<open>undefined\<close>, a primitive gives
  \<open>undefined\<close>, and reading from \<open>undefined\<close> or \<open>null\<close> throws.
\<close>

definition get_prop :: "jsval \<Rightarrow> string \<Rightarrow> js_error + jsval" where
  "get_prop v k =
     (case v of
        JUndefined \<Rightarrow> Inl (TypeError ''Cannot read properties of undefined'')
      | JNull \<Rightarrow> Inl (TypeError ''Cannot read properties of null'')
      | JObj kvs \<Rightarrow> Inr (case map_of kvs k of None \<Rightarrow> JUndefined | Some x \<Rightarrow> x)
      | _ \<Rightarrow> Inr JUndefined)"

text \<open>Optional chaining \<open>v?.k\<close>.\<close>

definition get_prop_opt :: "jsval \<Rightarrow> string \<Rightarrow> jsval" where
  "get_prop_opt v k =
     (case v of
        JObj kvs \<Rightarrow> (case map_of kvs k of None \<Rightarrow> JUndefined | Some x \<Rightarrow> x)
      | _ \<Rightarrow> JUndefined)"

text \<open>Property write \<open>o[k] = v\<close> on an object's entries: in place, or appended.\<close>

fun obj_set :: "(string \<times> jsval) list \<Rightarrow> string \<Rightarrow> jsval \<Rightarrow> (string \<times> jsval) list" where
  "obj_set [] k v = [(k, v)]"
| "obj_set ((k', v') # rest) k v =
     (if k' = k then (k', v) # rest else (k', v') # obj_set rest k v)"

subsection \<open>Agents and the service\<close>

text \<open>
  \<open>BMADAgent\<close> as \<open>parseAgentFile\<close> fills it: every field holds whatever the parser
  produced, so a field is a value of any shape, not necessarily of its declared type.
\<close>

record BMADAgent =
  a_id :: jsval
  a_name :: jsval
  a_title :: jsval
  a_persona :: jsval
  a_commands :: jsval
  a_dependencies :: jsval

text \<open>
  The registry: a \<open>Map\<close> in insertion order. Text keys are equal when they are the same
  text; a key that is an object was created by the parse that produced it and equals no
  earlier key.
\<close>

fun same_key :: "jsval \<Rightarrow> jsval \<Rightarrow> bool" where
  "same_key (JStr a) (JStr b) = (a = b)"
| "same_key _ _ = False"

fun map_set :: "(jsval \<times> 'v) list \<Rightarrow> jsval \<Rightarrow> 'v \<Rightarrow> (jsval \<times> 'v) list" where
  "map_set [] k v = [(k, v)]"
| "map_set ((k', v') # rest) k v =
     (if same_key k' k then (k', v) # rest else (k', v') # map_set rest k v)"

fun map_get :: "(jsval \<times> 'v) list \<Rightarrow> jsval \<Rightarrow> 'v option" where
  "map_get [] k = None"
| "map_get ((k', v') # rest) k = (if same_key k' k then Some v' else map_get rest k)"

record BMADOrchestrationService =
  llmManager :: LLMProviderManager
  agents :: "(jsval \<times> BMADAgent) list"
  bmadPath :: string

text \<open>The file system as the loader sees it; each call returns or throws.\<close>

record FileSystem =
  readdirSync :: "string \<Rightarrow> js_error + string list"
  readFileSync :: "string \<Rightarrow> js_error + string"
  existsSync :: "string \<Rightarrow> bool"

datatype warning =
    FailedToLoadAgent string js_error
  | FailedToParseYaml string js_error
  | DependencyNotFound string

text \<open>\<open>path.join\<close> and \<open>path.basename\<close> for paths already in normal form (POSIX).\<close>

definition path_join :: "string \<Rightarrow> string \<Rightarrow> string" where
  "path_join a b = a @ ''/'' @ b"

definition path_basename :: "string \<Rightarrow> string \<Rightarrow> string" where
  "path_basename p ext =
     (let base = last (split_on (CHR ''/'') p)
      in if ends_with base ext \<and> base \<noteq> ext then take (length base - length ext) base else base)"

subsection \<open>The agent-file parser\<close>

text \<open>
  \<open>content.match(/```yaml\s*([\s\S]*?)\s*```/)\<close>, giving the first capture group. The
  match starts at the first \<open>```yaml\<close>; the first \<open>\s*\<close> takes all the white space that
  follows; the lazy group then stops at the first position from which white space and a
  closing fence follow. There is no match when no fence follows.
\<close>

fun find_after :: "string \<Rightarrow> string \<Rightarrow> string option" where
  "find_after needle [] = (if needle = [] then Some [] else None)"
| "find_after needle (c # cs) =
     (if starts_with (c # cs) needle then Some (drop (length needle) (c # cs))
      else find_after needle cs)"

definition fence_here :: "string \<Rightarrow> bool" where
  "fence_here s = starts_with (dropWhile js_ws s) ''```''"

fun lazy_body :: "string \<Rightarrow> string option" where
  "lazy_body [] = None"
| "lazy_body (c # cs) =
     (if fence_here (c # cs) then Some []
      else (case lazy_body cs of None \<Rightarrow> None | Some body \<Rightarrow> Some (c # body)))"

definition yaml_match :: "string \<Rightarrow> string option" where
  "yaml_match content =
     (case find_after ''```yaml'' content of
        None \<Rightarrow> None
      | Some rest \<Rightarrow> lazy_body (dropWhile js_ws rest))"

text \<open>
  \<open>parseSimpleYAML\<close>. \<open>currentObject\<close> is a reference into the tree under \<open>result\<close>
  (the root, a section, or an object one level below a section), or the non-object
  value that \<open>result[currentSection][key]\<close> read. Writing a property through a reference
  that is not an object throws (class bodies are strict code).
\<close>

datatype cur = AtRoot | AtSection string | AtSub string string | Detached jsval

record yaml_state =
  result :: "(string \<times> jsval) list"
  currentSection :: string
  currentObject :: cur

definition cannot_set :: js_error where
  "cannot_set = TypeError ''Cannot set properties''"

definition write_cur ::
  "(string \<times> jsval) list \<Rightarrow> cur \<Rightarrow> string \<Rightarrow> jsval \<Rightarrow> js_error + (string \<times> jsval) list" where
  "write_cur tree c k v =
     (case c of
        AtRoot \<Rightarrow> Inr (obj_set tree k v)
      | AtSection s \<Rightarrow>
          (case map_of tree s of
             Some (JObj sec) \<Rightarrow> Inr (obj_set tree s (JObj (obj_set sec k v)))
           | _ \<Rightarrow> Inl cannot_set)
      | AtSub s k1 \<Rightarrow>
          (case map_of tree s of
             Some (JObj sec) \<Rightarrow>
               (case map_of sec k1 of
                  Some (JObj sub) \<Rightarrow>
                    Inr (obj_set tree s (JObj (obj_set sec k1 (JObj (obj_set sub k v)))))
                | _ \<Rightarrow> Inl cannot_set)
           | _ \<Rightarrow> Inl cannot_set)
      | Detached _ \<Rightarrow> Inl cannot_set)"

text \<open>\<open>result[currentSection][key]\<close>, and the reference it yields.\<close>

definition read_section_key :: "(string \<times> jsval) list \<Rightarrow> string \<Rightarrow> string \<Rightarrow> js_error + jsval" where
  "read_section_key tree s k = get_prop (get_prop_opt (JObj tree) s) k"

definition to_cur :: "string \<Rightarrow> string \<Rightarrow> jsval \<Rightarrow> cur" where
  "to_cur s k v = (case v of JObj _ \<Rightarrow> AtSub s k | _ \<Rightarrow> Detached v)"

definition yaml_line :: "yaml_state \<Rightarrow> string \<Rightarrow> js_error + yaml_state" where
  "yaml_line st line =
     (let trimmed = js_trim line in
      if trimmed = [] \<or> starts_with trimmed ''#'' then Inr st
      else if ends_with trimmed '':'' then
        (let key = butlast trimmed in
         if currentSection st \<noteq> [] then
           (case write_cur (result st) (currentObject st) key (JObj []) of
              Inl e \<Rightarrow> Inl e
            | Inr tree \<Rightarrow>
                (case read_section_key tree (currentSection st) key of
                   Inl e \<Rightarrow> Inl e
                 | Inr v \<Rightarrow>
                     Inr (st\<lparr>result := tree, currentObject := to_cur (currentSection st) key v\<rparr>)))
         else
           Inr \<lparr>result = obj_set (result st) key (JObj []), currentSection = key,
                currentObject = AtSection key\<rparr>)
      else if CHR '':'' \<in> set trimmed then
        (case split_on (CHR '':'') trimmed of
           [] \<Rightarrow> Inl (TypeError ''Cannot read properties of undefined'')
         | key # valueParts \<Rightarrow>
             (let value = js_trim (join_with '':'' valueParts);
                  v = (if starts_with value [CHR 0x22] \<and> ends_with value [CHR 0x22]
                       then butlast (tl value) else value)
              in case write_cur (result st) (currentObject st) (js_trim key) (JStr v) of
                   Inl e \<Rightarrow> Inl e
                 | Inr tree \<Rightarrow> Inr (st\<lparr>result := tree\<rparr>)))
      else Inr st)"

fun yaml_lines :: "yaml_state \<Rightarrow> string list \<Rightarrow> js_error + yaml_state" where
  "yaml_lines st [] = Inr st"
| "yaml_lines st (line # rest) =
     (case yaml_line st line of Inl e \<Rightarrow> Inl e | Inr st' \<Rightarrow> yaml_lines st' rest)"

definition parseSimpleYAML :: "string \<Rightarrow> js_error + jsval" where
  "parseSimpleYAML yaml =
     (case yaml_lines \<lparr>result = [], currentSection = [], currentObject = AtRoot\<rparr>
             (split_on (CHR 0x0A) yaml) of
        Inl e \<Rightarrow> Inl e
      | Inr st \<Rightarrow> Inr (JObj (result st)))"

text \<open>
  \<open>parseAgentFile\<close>: the warnings it logs, and its outcome (an agent, \<open>null\<close>, or the
  error \<open>readFileSync\<close> threw).
\<close>

definition default_persona :: jsval where
  "default_persona = JObj [(''role'', JStr []), (''style'', JStr []), (''core_principles'', JArr [])]"

definition parseAgentFile :: "FileSystem \<Rightarrow> string \<Rightarrow> warning list \<times> (js_error + BMADAgent option)" where
  "parseAgentFile fs filePath =
     (case readFileSync fs filePath of
        Inl e \<Rightarrow> ([], Inl e)
      | Inr content \<Rightarrow>
          (case yaml_match content of
             None \<Rightarrow> ([], Inr None)
           | Some yamlContent \<Rightarrow>
               (case parseSimpleYAML yamlContent of
                  Inl e \<Rightarrow> ([FailedToParseYaml filePath e], Inr None)
                | Inr agentData \<Rightarrow>
                    ([], Inr (Some
                       \<lparr>a_id = js_or (get_prop_opt (get_prop_opt agentData ''agent'') ''id'')
                                 (JStr (path_basename filePath ''.md'')),
                        a_name = js_or (get_prop_opt (get_prop_opt agentData ''agent'') ''name'') (JStr []),
                        a_title = js_or (get_prop_opt (get_prop_opt agentData ''agent'') ''title'') (JStr []),
                        a_persona = js_or (get_prop_opt agentData ''persona'') default_persona,
                        a_commands = js_or (get_prop_opt agentData ''commands'') (JObj []),
                        a_dependencies = js_or (get_prop_opt agentData ''dependencies'') (JObj [])\<rparr>)))))"

text \<open>The loop of \<open>loadAgents\<close> over the \<open>.md\<close> files, with its \<open>try\<close>/\<open>catch\<close> per file.\<close>

fun load_files ::
  "FileSystem \<Rightarrow> string \<Rightarrow> (jsval \<times> BMADAgent) list \<Rightarrow> string list \<Rightarrow>
   warning list \<times> (jsval \<times> BMADAgent) list" where
  "load_files fs agentsPath registry [] = ([], registry)"
| "load_files fs agentsPath registry (file # rest) =
     (case parseAgentFile fs (path_join agentsPath file) of
        (ws, Inr (Some agent)) \<Rightarrow>
          (let (ws', r) = load_files fs agentsPath (map_set registry (a_id agent) agent) rest
           in (ws @ ws', r))
      | (ws, Inr None) \<Rightarrow>
          (let (ws', r) = load_files fs agentsPath registry rest in (ws @ ws', r))
      | (ws, Inl e) \<Rightarrow>
          (let (ws', r) = load_files fs agentsPath registry rest
           in (ws @ [FailedToLoadAgent file e] @ ws', r)))"

definition loadAgents ::
  "BMADOrchestrationService \<Rightarrow> FileSystem \<Rightarrow> warning list \<times> (js_error + BMADOrchestrationService)" where
  "loadAgents svc fs =
     (let agentsPath = path_join (bmadPath svc) ''agents'' in
      case readdirSync fs agentsPath of
        Inl e \<Rightarrow> ([], Inl e)
      | Inr files \<Rightarrow>
          (let agentFiles = filter (\<lambda>file. ends_with file ''.md'') files;
               (ws, registry) = load_files fs agentsPath (agents svc) agentFiles
           in (ws, Inr (svc\<lparr>agents := registry\<rparr>))))"

text \<open>The constructor; \<open>latency\<close> is handed to the provider placeholders.\<close>

definition new_service ::
  "FileSystem \<Rightarrow> real \<Rightarrow> string option \<Rightarrow> warning list \<times> (js_error + BMADOrchestrationService)" where
  "new_service fs latency path =
     loadAgents \<lparr>llmManager = new_manager latency, agents = [],
                 bmadPath = dflt ''.bmad-creative-writing'' path\<rparr> fs"

definition getAvailableAgents :: "BMADOrchestrationService \<Rightarrow> BMADAgent list" where
  "getAvailableAgents svc = map snd (agents svc)"

definition getAgent :: "BMADOrchestrationService \<Rightarrow> string \<Rightarrow> BMADAgent option" where
  "getAgent svc agentId = map_get (agents svc) (JStr agentId)"

subsection \<open>Prompt composition\<close>

definition nl :: string where
  "nl = [CHR 0x0A]"

text \<open>\<open>core_principles.map(p => `- ${p}`).join('\n')\<close>: only an array has \<open>map\<close>.\<close>

definition principle_lines :: "jsval \<Rightarrow> js_error + string" where
  "principle_lines v =
     (case v of
        JArr ps \<Rightarrow>
          (case collect (map to_string ps) of
             Inl e \<Rightarrow> Inl e
           | Inr ss \<Rightarrow> Inr (join_with nl (map (\<lambda>s. ''- '' @ s) ss)))
      | JUndefined \<Rightarrow> Inl (TypeError ''Cannot read properties of undefined'')
      | JNull \<Rightarrow> Inl (TypeError ''Cannot read properties of null'')
      | _ \<Rightarrow> Inl (TypeError ''map is not a function''))"

text \<open>\<open>Object.entries(inputs).map(([k, v]) => `${k}: ${v}`).join('\n')\<close>.\<close>

definition input_lines :: "(string \<times> jsval) list \<Rightarrow> js_error + string" where
  "input_lines inputs =
     (case collect (map (\<lambda>(k, v). case to_string v of Inl e \<Rightarrow> Inl e | Inr s \<Rightarrow> Inr (k @ '': '' @ s)) inputs) of
        Inl e \<Rightarrow> Inl e
      | Inr ss \<Rightarrow> Inr (join_with nl ss))"

text \<open>Sequencing of steps that may throw.\<close>

definition and_then :: "js_error + 'a \<Rightarrow> ('a \<Rightarrow> js_error + 'b) \<Rightarrow> js_error + 'b" where
  "and_then r f = (case r of Inl e \<Rightarrow> Inl e | Inr x \<Rightarrow> f x)"

text \<open>
  \<open>buildAgentPrompt\<close>, a method of the service: \<open>svc\<close> is its \<open>this\<close>. The
  interpolations are evaluated from left to right; the first one that throws ends the call.
\<close>

definition buildAgentPrompt ::
  "BMADOrchestrationService \<Rightarrow> BMADAgent \<Rightarrow> string \<Rightarrow> (string \<times> jsval) list \<Rightarrow> string \<Rightarrow>
   js_error + string" where
  "buildAgentPrompt svc agent action inputs storyContext =
     and_then (to_string (a_name agent)) (\<lambda>name.
     and_then (get_prop (a_persona agent) ''role'') (\<lambda>roleV.
     and_then (to_string roleV) (\<lambda>role.
     and_then (get_prop (a_persona agent) ''style'') (\<lambda>styleV.
     and_then (to_string styleV) (\<lambda>style.
     and_then (get_prop (a_persona agent) ''core_principles'') (\<lambda>principlesV.
     and_then (principle_lines principlesV) (\<lambda>principles.
     and_then (input_lines inputs) (\<lambda>additional.
     and_then (to_string (a_name agent)) (\<lambda>name2.
       Inr (js_trim
         (nl @ ''You are '' @ name @ '', '' @ role @ ''.'' @ nl @ nl @
          style @ nl @ nl @
          ''Core Principles:'' @ nl @
          principles @ nl @ nl @
          ''Current Story Context:'' @ nl @
          storyContext @ nl @ nl @
          ''User Request: '' @ action @ nl @ nl @
          ''Additional Inputs:'' @ nl @
          additional @ nl @ nl @
          ''Please provide your expert response as '' @ name2 @ ''.'' @ nl @ ''    '')))))))))))"

subsection \<open>Concrete inputs\<close>

text \<open>
  An agent definition in the documented format (sections \<open>agent\<close>, \<open>persona\<close>,
  \<open>commands\<close>), a document without a fenced block, a one-section definition, and
  directories holding them.
\<close>

definition section_yaml :: string where
  "section_yaml =
     ''agent:'' @ nl @ ''  id: writer'' @ nl @ ''  name: Writer'' @ nl @ ''  title: Novelist'' @ nl @
     ''persona:'' @ nl @ ''  role: novelist'' @ nl @ ''  style: terse'' @ nl @
     ''commands:'' @ nl @ ''  draft: Draft a chapter''"

definition section_doc :: string where
  "section_doc = ''# Writer'' @ nl @ ''```yaml'' @ nl @ section_yaml @ nl @ ''```'' @ nl"

definition notes_doc :: string where
  "notes_doc = ''# Notes'' @ nl @ ''no agent here'' @ nl"

definition demo_fs :: FileSystem where
  "demo_fs =
     \<lparr>readdirSync = (\<lambda>p. if p = ''bmad/agents'' then Inr [''writer.md'', ''notes.md'']
                         else Inl (FsError ''ENOENT'')),
      readFileSync = (\<lambda>p. if p = ''bmad/agents/writer.md'' then Inr section_doc
                          else if p = ''bmad/agents/notes.md'' then Inr notes_doc
                          else Inl (FsError ''ENOENT'')),
      existsSync = (\<lambda>p. False)\<rparr>"

definition writer :: BMADAgent where
  "writer = \<lparr>a_id = JStr ''writer'', a_name = JStr ''Writer'', a_title = JStr ''Novelist'',
     a_persona = JObj [(''role'', JStr ''a novelist''), (''style'', JStr ''Terse.''),
                       (''core_principles'', JArr [JStr ''Show'', JStr ''Cut''])],
     a_commands = JObj [], a_dependencies = JObj []\<rparr>"

definition writer_prompt :: string where
  "writer_prompt =
     ''You are Writer, a novelist.'' @ nl @ nl @ ''Terse.'' @ nl @ nl @
     ''Core Principles:'' @ nl @ ''- Show'' @ nl @ ''- Cut'' @ nl @ nl @
     ''Current Story Context:'' @ nl @ ''Once'' @ nl @ nl @
     ''User Request: Draft ch1'' @ nl @ nl @
     ''Additional Inputs:'' @ nl @ ''userId: u1'' @ nl @ ''n: 3'' @ nl @ nl @
     ''Please provide your expert response as Writer.''"

definition svc_a :: BMADOrchestrationService where
  "svc_a = \<lparr>llmManager = new_manager 0, agents = [], bmadPath = ''bmad''\<rparr>"

definition svc_b :: BMADOrchestrationService where
  "svc_b = \<lparr>llmManager = fake_manager, agents = [(JStr ''writer'', writer)], bmadPath = ''elsewhere''\<rparr>"

definition plain_yaml :: string where
  "plain_yaml = ''agent:'' @ nl @ ''  id: writer'' @ nl @ ''  name: Writer'' @ nl @ ''  title: Novelist''"

definition plain_doc :: string where
  "plain_doc = ''# Writer'' @ nl @ ''```yaml'' @ nl @ plain_yaml @ nl @ ''```'' @ nl"

definition plain_fs :: FileSystem where
  "plain_fs =
     \<lparr>readdirSync = (\<lambda>p. if p = ''bmad/agents'' then Inr [''notes.md'', ''writer.md'']
                         else Inl (FsError ''ENOENT'')),
      readFileSync = (\<lambda>p. if p = ''bmad/agents/writer.md'' then Inr plain_doc
                          else if p = ''bmad/agents/notes.md'' then Inr notes_doc
                          else Inl (FsError ''ENOENT'')),
      existsSync = (\<lambda>p. False)\<rparr>"

section \<open>Properties of the document version store\<close>

lemma no_repeat_snoc:
  "no_repeat (xs @ [y]) = (no_repeat xs \<and> (xs = [] \<or> last xs \<noteq> y))"
  by (induction xs rule: no_repeat.induct) auto

lemma store_inv_new: "store_inv new_store"
  by (simp add: store_inv_def new_store_def)

lemma doc_ok_initial:
  "doc_ok i \<lparr>sf_id = i, sf_projectId = p, sf_filename = f, sf_content = c, sf_version = 1, sf_metadata = m\<rparr>
     [\<lparr>v_id = g, v_storyFileId = i, v_version = 1, v_content = c, v_metadata = m,
       v_createdAt = now, v_createdBy = b, v_commitMessage = msg\<rparr>]"
  by (simp add: doc_ok_def)

lemma doc_ok_snoc:
  assumes "doc_ok i sf vs" and "sf_content sf \<noteq> c"
  shows "doc_ok i (sf\<lparr>sf_content := c, sf_version := sf_version sf + 1, sf_metadata := m\<rparr>)
           (vs @ [\<lparr>v_id = g, v_storyFileId = i, v_version = sf_version sf + 1, v_content = c,
                   v_metadata = m, v_createdAt = now, v_createdBy = b, v_commitMessage = msg\<rparr>])"
  using assms by (auto simp: doc_ok_def no_repeat_snoc last_map)

lemma store_inv_iff:
  "store_inv s =
     (\<forall>i. (storyFiles s i = None \<longrightarrow> versions s i = None) \<and>
          (\<forall>sf. storyFiles s i = Some sf \<longrightarrow> (\<exists>vs. versions s i = Some vs \<and> doc_ok i sf vs)))"
  unfolding store_inv_def
  by (rule iff_allI) (auto split: option.splits)

lemma storyFiles_create:
  "storyFiles (snd (createStoryFile s p f c m b newId verId now)) =
     (storyFiles s)(newId \<mapsto> \<lparr>sf_id = newId, sf_projectId = p, sf_filename = f,
        sf_content = dflt [] c, sf_version = 1, sf_metadata = dflt Map.empty m\<rparr>)"
  by (simp add: createStoryFile_def createVersion_def Let_def)

lemma versions_create:
  "versions (snd (createStoryFile s p f c m b newId verId now)) =
     (versions s)(newId \<mapsto> (case versions s newId of None \<Rightarrow> [] | Some l \<Rightarrow> l) @
        [\<lparr>v_id = verId, v_storyFileId = newId, v_version = 1, v_content = dflt [] c,
          v_metadata = dflt Map.empty m, v_createdAt = now, v_createdBy = dflt ''system'' b,
          v_commitMessage = ''Initial creation''\<rparr>])"
  by (simp add: createStoryFile_def createVersion_def Let_def)

lemma update_same:
  "storyFiles s k = Some sf \<Longrightarrow> sf_content sf = c \<Longrightarrow>
   updateStoryFile s k c msg b m verId now = (Inr sf, s)"
  by (simp add: updateStoryFile_def)

lemma update_missing:
  "storyFiles s k = None \<Longrightarrow>
   updateStoryFile s k c msg b m verId now = (Inl (StoryFileNotFound k), s)"
  by (simp add: updateStoryFile_def)

lemma update_changed:
  assumes "storyFiles s k = Some sf" and "sf_content sf \<noteq> c"
  shows "fst (updateStoryFile s k c msg b m verId now) = Inr (updated sf c m)"
    and "storyFiles (snd (updateStoryFile s k c msg b m verId now)) = (storyFiles s)(k \<mapsto> updated sf c m)"
    and "versions (snd (updateStoryFile s k c msg b m verId now)) =
           (versions s)(sf_id sf \<mapsto> (case versions s (sf_id sf) of None \<Rightarrow> [] | Some l \<Rightarrow> l) @
             [\<lparr>v_id = verId, v_storyFileId = sf_id sf, v_version = sf_version sf + 1, v_content = c,
               v_metadata = sf_metadata sf ++ dflt Map.empty m, v_createdAt = now,
               v_createdBy = dflt ''system'' b, v_commitMessage = dflt ''Updated content'' msg\<rparr>])"
  using assms by (simp_all add: updateStoryFile_def createVersion_def Let_def updated_def)

lemma store_inv_create:
  assumes "store_inv s" and "storyFiles s newId = None"
  shows "store_inv (snd (createStoryFile s p f c m b newId verId now))"
proof -
  from assms have v: "versions s newId = None"
    by (simp add: store_inv_iff)
  show ?thesis
    unfolding store_inv_iff storyFiles_create versions_create
    using assms(1) v by (auto simp: store_inv_iff doc_ok_initial)
qed

lemma store_inv_update:
  assumes "store_inv s"
  shows "store_inv (snd (updateStoryFile s k c msg b m verId now))"
proof (cases "storyFiles s k")
  case None
  then show ?thesis using assms by (simp add: update_missing)
next
  case (Some sf)
  show ?thesis
  proof (cases "sf_content sf = c")
    case True
    then show ?thesis using assms Some by (simp add: update_same)
  next
    case False
    from assms Some obtain vs where vs: "versions s k = Some vs" "doc_ok k sf vs"
      by (auto simp: store_inv_iff)
    then have idk: "sf_id sf = k" by (simp add: doc_ok_def)
    show ?thesis
      unfolding store_inv_iff update_changed[OF Some False] idk
      using assms vs doc_ok_snoc[OF vs(2) False]
      by (auto simp: store_inv_iff updated_def)
  qed
qed

lemma store_inv_revert:
  assumes "store_inv s"
  shows "store_inv (snd (revertToVersion s k t msg b verId now))"
  using assms by (simp add: revertToVersion_def store_inv_update split: option.splits)

lemma store_inv_delete:
  assumes "store_inv s"
  shows "store_inv (snd (deleteStoryFile s k))"
  using assms unfolding store_inv_iff
  by (auto simp: deleteStoryFile_def Let_def)

lemma store_inv_exec:
  "store_inv s \<Longrightarrow> fresh_from s (opn # ops) \<Longrightarrow> store_inv (exec s opn)"
  by (cases opn) (simp_all add: store_inv_create store_inv_update store_inv_revert store_inv_delete)

lemma fresh_from_tail: "fresh_from s (opn # ops) \<Longrightarrow> fresh_from (exec s opn) ops"
  by (cases opn) simp_all

lemma store_inv_foldl:
  "store_inv s \<Longrightarrow> fresh_from s ops \<Longrightarrow> store_inv (foldl exec s ops)"
proof (induction ops arbitrary: s)
  case Nil
  then show ?case by simp
next
  case (Cons opn ops)
  then show ?case
    using store_inv_exec[OF Cons.prems] fresh_from_tail[OF Cons.prems(2)] by simp
qed


lemma revert_cases:
  "revertToVersion s k t msg b verId now =
     (case getVersion s k t of
        None \<Rightarrow> (Inl (VersionNotFound t k), s)
      | Some tv \<Rightarrow> updateStoryFile s k (v_content tv)
          (Some (dflt (''Reverted to version '' @ string_of_int t) msg))
          (Some (dflt ''system'' b)) (Some [''revertedFrom'' \<mapsto> JNum t]) verId now)"
  by (simp add: revertToVersion_def)

lemma storyFiles_update_other:
  "i \<noteq> k \<Longrightarrow> storyFiles (snd (updateStoryFile s k c msg b m verId now)) i = storyFiles s i"
  by (simp add: updateStoryFile_def createVersion_def Let_def split: option.splits)

lemma storyFiles_update_dom:
  "(storyFiles (snd (updateStoryFile s k c msg b m verId now)) i = None) = (storyFiles s i = None)"
  by (simp add: updateStoryFile_def createVersion_def Let_def split: option.splits)

lemma storyFiles_revert_dom:
  "(storyFiles (snd (revertToVersion s k t msg b verId now)) i = None) = (storyFiles s i = None)"
  by (simp add: revert_cases storyFiles_update_dom split: option.splits)

lemma storyFiles_delete:
  "storyFiles (snd (deleteStoryFile s k)) = (storyFiles s)(k := None)"
  by (simp add: deleteStoryFile_def Let_def)

lemma live_exec:
  "(storyFiles (exec s opn) i \<noteq> None) =
     (if creates opn i then True else if removes opn i then False else storyFiles s i \<noteq> None)"
  by (cases opn) (simp_all add: storyFiles_create storyFiles_update_dom storyFiles_revert_dom storyFiles_delete)

lemma live_foldl:
  "(storyFiles (foldl exec s ops) i \<noteq> None) = live_after (storyFiles s i \<noteq> None) ops i"
proof (induction ops arbitrary: s)
  case Nil
  show ?case by simp
next
  case (Cons opn ops)
  show ?case
    by (simp only: foldl_Cons live_after.simps Cons.IH live_exec)
qed

lemma keys_agree_update: "keys_agree s \<Longrightarrow> keys_agree (snd (updateStoryFile s k c msg b m verId now))"
  unfolding keys_agree_def
  by (auto simp add: updateStoryFile_def createVersion_def Let_def split: option.splits if_splits)

lemma keys_agree_exec: "keys_agree s \<Longrightarrow> keys_agree (exec s opn)"
proof (cases opn)
  case (Create p f c m b newId verId now)
  assume "keys_agree s"
  then show ?thesis unfolding keys_agree_def Create exec.simps storyFiles_create versions_create
    by auto
next
  case Update
  assume "keys_agree s"
  then show ?thesis using Update by (simp add: keys_agree_update)
next
  case Revert
  assume "keys_agree s"
  then show ?thesis using Revert by (simp add: revert_cases keys_agree_update split: option.splits)
next
  case Remove
  assume "keys_agree s"
  then show ?thesis using Remove by (auto simp: keys_agree_def deleteStoryFile_def Let_def)
qed

lemma keys_agree_foldl: "keys_agree s \<Longrightarrow> keys_agree (foldl exec s ops)"
  by (induction ops arbitrary: s) (simp_all add: keys_agree_exec)

lemma keys_agree_run: "keys_agree (run ops)"
  unfolding run_def by (rule keys_agree_foldl) (simp add: keys_agree_def new_store_def)

text \<open>
  Claim C10. For a document id that was never created, or whose document has been
  deleted, the read operations of the store return empty results instead of failing:
  \<open>getStoryFile\<close> gives null, \<open>getVersions\<close> the empty list, and \<open>getVersion\<close> null for
  every version number. No assumption on the generated ids is needed.
\<close>

theorem reads_of_absent_document:
  assumes "\<not> live_after False ops i"
  shows "getStoryFile (run ops) i = None \<and> getVersions (run ops) i = [] \<and>
         (\<forall>v. getVersion (run ops) i v = None)"
proof -
  have "storyFiles (run ops) i = None"
    using assms live_foldl[of new_store ops i] by (simp add: run_def new_store_def)
  moreover from this have "versions (run ops) i = None"
    using keys_agree_run[of ops] by (simp add: keys_agree_def)
  ultimately show ?thesis
    by (simp add: getStoryFile_def getVersions_def getVersion_def)
qed

theorem reads_of_absent_document_witness:
  "\<not> live_after False demo_ops ''d1'' \<and> \<not> live_after False demo_ops ''d2'' \<and>
   getStoryFile (run demo_ops) ''d1'' = None \<and> getVersions (run demo_ops) ''d1'' = [] \<and>
   getVersion (run demo_ops) ''d1'' 1 = None \<and> getStoryFile (run demo_ops) ''d2'' = None \<and>
   getVersions (run demo_ops) ''d2'' = [] \<and> getVersion (run demo_ops) ''d2'' 1 = None"
proof -
  have a: "\<not> live_after False demo_ops ''d1''" by (simp add: demo_ops_def)
  have b: "\<not> live_after False demo_ops ''d2''" by (simp add: demo_ops_def)
  show ?thesis
    using a b reads_of_absent_document[OF a] reads_of_absent_document[OF b] by simp
qed

lemma version_exec:
  assumes "\<forall>sf. storyFiles s i = Some sf \<longrightarrow> sf_version sf = 1 + int n"
    and "storyFiles (exec s opn) i = Some sf'"
  shows "sf_version sf' =
           1 + int (if creates opn i then 0 else if content_changing s opn i then n + 1 else n)"
proof (cases opn)
  case (Create p f c m b newId verId now)
  then show ?thesis using assms by (auto simp: storyFiles_create split: if_splits)
next
  case (Update k c msg b m verId now)
  then show ?thesis using assms
    by (auto simp: updateStoryFile_def createVersion_def Let_def split: option.splits if_splits)
next
  case (Revert k t msg b verId now)
  then show ?thesis using assms
    by (auto simp: revert_cases updateStoryFile_def createVersion_def Let_def split: option.splits if_splits)
next
  case (Remove k)
  then show ?thesis using assms by (auto simp: storyFiles_delete split: if_splits)
qed

lemma version_foldl:
  assumes "\<forall>sf. storyFiles s i = Some sf \<longrightarrow> sf_version sf = 1 + int n"
    and "storyFiles (foldl exec s ops) i = Some sf'"
  shows "sf_version sf' = 1 + int (updates_since_create s ops i n)"
  using assms
proof (induction ops arbitrary: s n)
  case Nil
  then show ?case by simp
next
  case (Cons opn ops)
  have "\<forall>sf. storyFiles (exec s opn) i = Some sf \<longrightarrow>
          sf_version sf = 1 + int (if creates opn i then 0 else if content_changing s opn i then n + 1 else n)"
    using version_exec[OF Cons.prems(1)] by blast
  from Cons.IH[OF this] Cons.prems(2) show ?case by simp
qed


lemma store_inv_run: "fresh_from new_store ops \<Longrightarrow> store_inv (run ops)"
  unfolding run_def by (rule store_inv_foldl[OF store_inv_new])

lemma history_append_only:
  assumes "keys_agree s" and "\<not> removes opn i" and "\<not> creates opn i"
  shows "\<exists>ys. getVersions (exec s opn) i = getVersions s i @ ys"
proof (cases opn)
  case (Create p f c m b newId verId now)
  then show ?thesis using assms by (simp add: getVersions_def versions_create)
next
  case (Update k c msg b m verId now)
  then show ?thesis using assms
    by (auto simp: getVersions_def updateStoryFile_def createVersion_def Let_def keys_agree_def
             split: option.splits)
next
  case (Revert k t msg b verId now)
  then show ?thesis using assms
    by (auto simp: getVersions_def revert_cases updateStoryFile_def createVersion_def Let_def keys_agree_def
             split: option.splits)
next
  case (Remove k)
  then show ?thesis using assms by (simp add: getVersions_def deleteStoryFile_def Let_def)
qed

text \<open>
  Claim C1, as amended. Along any history of store calls in which every created
  document received an unused id, each stored document's \<open>version\<close> equals the length
  of its history, the history's version numbers are 1, 2, ... in order without gap or
  repetition, and after creation followed by N successful content-changing updates the
  \<open>version\<close> is N + 1 and \<open>getVersions\<close> returns N + 1 entries, oldest first.
\<close>

theorem version_counts_history:
  assumes "fresh_from new_store ops" and "getStoryFile (run ops) i = Some sf"
  shows "sf_version sf = int (length (getVersions (run ops) i)) \<and>
         map v_version (getVersions (run ops) i) = map int [1..<Suc (length (getVersions (run ops) i))] \<and>
         sf_version sf = 1 + int (updates_since_create new_store ops i 0) \<and>
         length (getVersions (run ops) i) = 1 + updates_since_create new_store ops i 0"
proof -
  from assms(2) have sf: "storyFiles (run ops) i = Some sf" by (simp add: getStoryFile_def)
  from store_inv_run[OF assms(1)] sf obtain vs
    where vs: "versions (run ops) i = Some vs" "doc_ok i sf vs"
    by (auto simp: store_inv_iff)
  have g: "getVersions (run ops) i = vs" using vs(1) by (simp add: getVersions_def)
  have n: "sf_version sf = 1 + int (updates_since_create new_store ops i 0)"
    by (rule version_foldl[of new_store i 0 ops sf])
       (use sf in \<open>simp_all add: run_def new_store_def\<close>)
  have l: "sf_version sf = int (length vs)" using vs(2) by (simp add: doc_ok_def)
  have m: "map v_version vs = map int [1..<Suc (length vs)]" using vs(2) by (simp add: doc_ok_def)
  from n l have "length vs = 1 + updates_since_create new_store ops i 0" by linarith
  with g n l m show ?thesis by simp
qed

lemma run_edit_ops_doc:
  "storyFiles (run edit_ops) ''d1'' =
     Some \<lparr>sf_id = ''d1'', sf_projectId = ''p1'', sf_filename = ''ch1.md'',
           sf_content = ''line1'' @ [CHR 0x0A] @ ''line2'' @ [CHR 0x0A] @ ''line3'',
           sf_version = 2, sf_metadata = Map.empty\<rparr>"
  by (simp add: run_def edit_ops_def new_store_def createStoryFile_def createVersion_def
        updateStoryFile_def dflt_def Let_def)

lemma fresh_edit_ops: "fresh_from new_store edit_ops"
  by (simp add: edit_ops_def new_store_def)

lemma updates_edit_ops: "updates_since_create new_store edit_ops ''d1'' 0 = 1"
  by (simp add: edit_ops_def new_store_def createStoryFile_def createVersion_def dflt_def Let_def)

theorem version_counts_history_witness:
  "fresh_from new_store edit_ops \<and>
   getStoryFile (run edit_ops) ''d1'' \<noteq> None \<and>
   map v_version (getVersions (run edit_ops) ''d1'') = [1, 2] \<and>
   length (getVersions (run edit_ops) ''d1'') = 1 + updates_since_create new_store edit_ops ''d1'' 0"
proof -
  have d: "getStoryFile (run edit_ops) ''d1'' =
     Some \<lparr>sf_id = ''d1'', sf_projectId = ''p1'', sf_filename = ''ch1.md'',
           sf_content = ''line1'' @ [CHR 0x0A] @ ''line2'' @ [CHR 0x0A] @ ''line3'',
           sf_version = 2, sf_metadata = Map.empty\<rparr>"
    by (simp add: getStoryFile_def run_edit_ops_doc)
  note t = version_counts_history[OF fresh_edit_ops d]
  from t have "int (length (getVersions (run edit_ops) ''d1'')) = 2"
    by (simp only: StoryFile.simps conj_imp_eq_imp_imp)
  then have len: "length (getVersions (run edit_ops) ''d1'') = 2" by linarith
  from t have "map v_version (getVersions (run edit_ops) ''d1'') =
      map int [1..<Suc (length (getVersions (run edit_ops) ''d1''))]"
    by (rule conjunct1[OF conjunct2])
  then have nums: "map v_version (getVersions (run edit_ops) ''d1'') = [1, 2]"
    unfolding len by (simp add: upt_conv_Cons)
  from t have cnt: "length (getVersions (run edit_ops) ''d1'') =
      1 + updates_since_create new_store edit_ops ''d1'' 0"
    by (rule conjunct2[OF conjunct2[OF conjunct2]])
  from d have ex: "getStoryFile (run edit_ops) ''d1'' \<noteq> None" by simp
  from fresh_edit_ops ex nums cnt show ?thesis by blast
qed

text \<open>
  The claim as written asks for \<open>version = N\<close> and N history entries after N updates.
  A document created and then updated once has version 2 and two history entries.
\<close>

theorem version_equals_update_count_counterexample:
  "fresh_from new_store edit_ops \<and>
   updates_since_create new_store edit_ops ''d1'' 0 = 1 \<and>
   map_option sf_version (getStoryFile (run edit_ops) ''d1'') = Some 2 \<and>
   map_option sf_version (getStoryFile (run edit_ops) ''d1'')
     \<noteq> Some (int (updates_since_create new_store edit_ops ''d1'' 0)) \<and>
   length (getVersions (run edit_ops) ''d1'') = 2 \<and>
   length (getVersions (run edit_ops) ''d1'') \<noteq> updates_since_create new_store edit_ops ''d1'' 0"
proof -
  have v: "length (getVersions (run edit_ops) ''d1'') = 2"
    by (simp add: getVersions_def run_def edit_ops_def new_store_def createStoryFile_def createVersion_def
        updateStoryFile_def dflt_def Let_def)
  show ?thesis
    by (simp add: fresh_edit_ops updates_edit_ops getStoryFile_def run_edit_ops_doc v)
qed

text \<open>
  Claim C2, as amended. \<open>updateStoryFile\<close> called with the document's current content
  is a no-op in every store state: it returns the stored document as it is and leaves the
  whole store, hence the version number and the history, unchanged. Consequently, along
  any history of store calls in which every created document received an id that no
  stored document had, no document's history holds two consecutive versions with the same
  content.
\<close>

theorem update_identical_content_noop:
  "(getStoryFile s i = Some sf \<longrightarrow>
      updateStoryFile s i (sf_content sf) msg b m verId now = (Inr sf, s)) \<and>
   (fresh_from new_store ops \<longrightarrow> no_repeat (map v_content (getVersions (run ops) j)))"
proof (intro conjI impI)
  assume "getStoryFile s i = Some sf"
  then show "updateStoryFile s i (sf_content sf) msg b m verId now = (Inr sf, s)"
    by (simp add: getStoryFile_def update_same)
next
  assume fr: "fresh_from new_store ops"
  show "no_repeat (map v_content (getVersions (run ops) j))"
  proof (cases "storyFiles (run ops) j")
    case None
    then have "versions (run ops) j = None"
      using store_inv_run[OF fr] by (simp add: store_inv_iff)
    then show ?thesis by (simp add: getVersions_def)
  next
    case (Some sf')
    then obtain vs where "versions (run ops) j = Some vs" "doc_ok j sf' vs"
      using store_inv_run[OF fr] by (auto simp: store_inv_iff)
    then show ?thesis by (simp add: getVersions_def doc_ok_def)
  qed
qed

lemma run_edit_ops_versions:
  "versions (run edit_ops) ''d1'' =
     Some [\<lparr>v_id = ''g1'', v_storyFileId = ''d1'', v_version = 1,
             v_content = ''line1'' @ [CHR 0x0A] @ ''line2'', v_metadata = Map.empty,
             v_createdAt = 100, v_createdBy = ''system'', v_commitMessage = ''Initial creation''\<rparr>,
           \<lparr>v_id = ''g2'', v_storyFileId = ''d1'', v_version = 2,
             v_content = ''line1'' @ [CHR 0x0A] @ ''line2'' @ [CHR 0x0A] @ ''line3'',
             v_metadata = Map.empty,
             v_createdAt = 200, v_createdBy = ''system'', v_commitMessage = ''Updated content''\<rparr>]"
  by (simp add: run_def edit_ops_def new_store_def createStoryFile_def createVersion_def
        updateStoryFile_def dflt_def Let_def)

theorem update_identical_content_noop_witness:
  "getStoryFile (run edit_ops) ''d1'' \<noteq> None \<and>
   fresh_from new_store edit_ops \<and>
   updateStoryFile (run edit_ops) ''d1'' (''line1'' @ [CHR 0x0A] @ ''line2'' @ [CHR 0x0A] @ ''line3'')
     None None None ''g3'' 300 =
     (Inr \<lparr>sf_id = ''d1'', sf_projectId = ''p1'', sf_filename = ''ch1.md'',
           sf_content = ''line1'' @ [CHR 0x0A] @ ''line2'' @ [CHR 0x0A] @ ''line3'',
           sf_version = 2, sf_metadata = Map.empty\<rparr>, run edit_ops) \<and>
   no_repeat (map v_content (getVersions (run edit_ops) ''d1''))"
proof -
  have d: "getStoryFile (run edit_ops) ''d1'' =
     Some \<lparr>sf_id = ''d1'', sf_projectId = ''p1'', sf_filename = ''ch1.md'',
           sf_content = ''line1'' @ [CHR 0x0A] @ ''line2'' @ [CHR 0x0A] @ ''line3'',
           sf_version = 2, sf_metadata = Map.empty\<rparr>"
    by (simp add: getStoryFile_def run_edit_ops_doc)
  show ?thesis
    using update_identical_content_noop[of "run edit_ops" "''d1''"
            "\<lparr>sf_id = ''d1'', sf_projectId = ''p1'', sf_filename = ''ch1.md'',
              sf_content = ''line1'' @ [CHR 0x0A] @ ''line2'' @ [CHR 0x0A] @ ''line3'',
              sf_version = 2, sf_metadata = Map.empty\<rparr>"
            None None None "''g3''" 300 edit_ops "''d1''"] d fresh_edit_ops
    by simp
qed

text \<open>
  Without the condition on ids the consequence fails: \<open>generateId\<close> is not checked
  against the stored documents, and a second document created under an id in use has its
  initial version appended to the first document's history. With equal initial contents
  the history then holds two consecutive versions with the same content.
\<close>

theorem identical_consecutive_versions_counterexample:
  "\<not> fresh_from new_store clash_ops \<and>
   map v_content (getVersions (run clash_ops) ''d1'') = [''a'', ''a''] \<and>
   \<not> no_repeat (map v_content (getVersions (run clash_ops) ''d1''))"
proof -
  have f: "\<not> fresh_from new_store clash_ops"
    by (simp add: clash_ops_def new_store_def createStoryFile_def createVersion_def dflt_def Let_def)
  have v: "map v_content (getVersions (run clash_ops) ''d1'') = [''a'', ''a'']"
    by (simp add: getVersions_def run_def clash_ops_def new_store_def createStoryFile_def
          createVersion_def dflt_def Let_def)
  from f v show ?thesis by simp
qed

text \<open>
  Claim C6. In every state the store can reach, \<open>revertToVersion\<close> fails with
  \<open>VersionNotFound\<close> exactly when the target version does not exist, and then leaves the
  store unchanged. For an existing target version it is \<open>updateStoryFile\<close> with the
  target's stored content and the metadata patch \<open>{revertedFrom: targetVersion}\<close>: the
  returned (and stored) document has the target's content; if that content is the current
  content nothing changes, otherwise the version number grows by one, the patch is merged
  into the metadata, and one snapshot is appended to the history.
\<close>

theorem revert_semantics:
  "((fst (revertToVersion (run ops) i t msg b verId now) = Inl (VersionNotFound t i)) =
      (getVersion (run ops) i t = None)) \<and>
   (getVersion (run ops) i t = None \<longrightarrow>
      snd (revertToVersion (run ops) i t msg b verId now) = run ops) \<and>
   (getVersion (run ops) i t = Some tv \<longrightarrow>
      revertToVersion (run ops) i t msg b verId now =
        updateStoryFile (run ops) i (v_content tv)
          (Some (dflt (''Reverted to version '' @ string_of_int t) msg))
          (Some (dflt ''system'' b)) (Some [''revertedFrom'' \<mapsto> JNum t]) verId now \<and>
      (\<exists>sf sf'. getStoryFile (run ops) i = Some sf \<and>
         fst (revertToVersion (run ops) i t msg b verId now) = Inr sf' \<and>
         getStoryFile (snd (revertToVersion (run ops) i t msg b verId now)) i = Some sf' \<and>
         sf_content sf' = v_content tv \<and>
         (v_content tv = sf_content sf \<longrightarrow>
            sf' = sf \<and> snd (revertToVersion (run ops) i t msg b verId now) = run ops) \<and>
         (v_content tv \<noteq> sf_content sf \<longrightarrow>
            sf_version sf' = sf_version sf + 1 \<and>
            sf_metadata sf' = sf_metadata sf ++ [''revertedFrom'' \<mapsto> JNum t] \<and>
            getVersions (snd (revertToVersion (run ops) i t msg b verId now)) i =
              getVersions (run ops) i @
                [\<lparr>v_id = verId, v_storyFileId = i, v_version = sf_version sf + 1,
                  v_content = v_content tv,
                  v_metadata = sf_metadata sf ++ [''revertedFrom'' \<mapsto> JNum t],
                  v_createdAt = now, v_createdBy = dflt ''system'' b,
                  v_commitMessage = dflt (''Reverted to version '' @ string_of_int t) msg\<rparr>])))"
proof (intro conjI impI)
  show "(fst (revertToVersion (run ops) i t msg b verId now) = Inl (VersionNotFound t i)) =
      (getVersion (run ops) i t = None)"
    by (auto simp: revert_cases updateStoryFile_def Let_def split: option.splits)
next
  assume "getVersion (run ops) i t = None"
  then show "snd (revertToVersion (run ops) i t msg b verId now) = run ops"
    by (simp add: revert_cases)
next
  assume "getVersion (run ops) i t = Some tv"
  then show "revertToVersion (run ops) i t msg b verId now =
        updateStoryFile (run ops) i (v_content tv)
          (Some (dflt (''Reverted to version '' @ string_of_int t) msg))
          (Some (dflt ''system'' b)) (Some [''revertedFrom'' \<mapsto> JNum t]) verId now"
    by (simp add: revert_cases)
next
  assume tv: "getVersion (run ops) i t = Some tv"
  let ?s = "run ops"
  let ?r = "revertToVersion ?s i t msg b verId now"
  have ka: "keys_agree ?s" by (rule keys_agree_run)
  from tv have "versions ?s i \<noteq> None"
    by (auto simp: getVersion_def split: option.splits)
  with ka obtain sf where sf: "storyFiles ?s i = Some sf"
    by (cases "storyFiles ?s i") (auto simp: keys_agree_def)
  with ka have idk: "sf_id sf = i" by (simp add: keys_agree_def)
  have r: "?r = updateStoryFile ?s i (v_content tv)
          (Some (dflt (''Reverted to version '' @ string_of_int t) msg))
          (Some (dflt ''system'' b)) (Some [''revertedFrom'' \<mapsto> JNum t]) verId now"
    using tv by (simp add: revert_cases)
  show "\<exists>sf sf'. getStoryFile ?s i = Some sf \<and> fst ?r = Inr sf' \<and>
         getStoryFile (snd ?r) i = Some sf' \<and> sf_content sf' = v_content tv \<and>
         (v_content tv = sf_content sf \<longrightarrow> sf' = sf \<and> snd ?r = ?s) \<and>
         (v_content tv \<noteq> sf_content sf \<longrightarrow>
            sf_version sf' = sf_version sf + 1 \<and>
            sf_metadata sf' = sf_metadata sf ++ [''revertedFrom'' \<mapsto> JNum t] \<and>
            getVersions (snd ?r) i =
              getVersions ?s i @
                [\<lparr>v_id = verId, v_storyFileId = i, v_version = sf_version sf + 1,
                  v_content = v_content tv,
                  v_metadata = sf_metadata sf ++ [''revertedFrom'' \<mapsto> JNum t],
                  v_createdAt = now, v_createdBy = dflt ''system'' b,
                  v_commitMessage = dflt (''Reverted to version '' @ string_of_int t) msg\<rparr>])"
  proof (cases "sf_content sf = v_content tv")
    case True
    then have "?r = (Inr sf, ?s)" unfolding r using sf by (simp add: update_same)
    then show ?thesis using sf True by (simp add: getStoryFile_def)
  next
    case False
    note u = update_changed[OF sf False, of _ _ "Some [''revertedFrom'' \<mapsto> JNum t]" verId now, folded r]
    show ?thesis
      apply (rule exI[of _ sf])
      apply (rule exI[of _ "updated sf (v_content tv) (Some [''revertedFrom'' \<mapsto> JNum t])"])
      using sf False idk
      by (simp add: getStoryFile_def getVersions_def r update_changed[OF sf False] updated_def dflt_def)
  qed
qed


theorem revert_semantics_witness:
  "getVersion (run edit_ops) ''d1'' 7 = None \<and>
   revertToVersion (run edit_ops) ''d1'' 7 None None ''g3'' 300 =
     (Inl (VersionNotFound 7 ''d1''), run edit_ops) \<and>
   map_option v_content (getVersion (run edit_ops) ''d1'' 1) = Some (''line1'' @ [CHR 0x0A] @ ''line2'') \<and>
   (\<exists>sf'. fst (revertToVersion (run edit_ops) ''d1'' 1 None None ''g3'' 300) = Inr sf' \<and>
      sf_content sf' = ''line1'' @ [CHR 0x0A] @ ''line2'' \<and> sf_version sf' = 3 \<and>
      sf_metadata sf' ''revertedFrom'' = Some (JNum 1)) \<and>
   length (getVersions (snd (revertToVersion (run edit_ops) ''d1'' 1 None None ''g3'' 300)) ''d1'') = 3 \<and>
   map_option v_content (getVersion (run edit_ops) ''d1'' 2) =
     Some (''line1'' @ [CHR 0x0A] @ ''line2'' @ [CHR 0x0A] @ ''line3'') \<and>
   snd (revertToVersion (run edit_ops) ''d1'' 2 None None ''g3'' 300) = run edit_ops"
proof -
  let ?v1 = "\<lparr>v_id = ''g1'', v_storyFileId = ''d1'', v_version = 1,
             v_content = ''line1'' @ [CHR 0x0A] @ ''line2'', v_metadata = Map.empty,
             v_createdAt = 100, v_createdBy = ''system'', v_commitMessage = ''Initial creation''\<rparr>"
  let ?v2 = "\<lparr>v_id = ''g2'', v_storyFileId = ''d1'', v_version = 2,
             v_content = ''line1'' @ [CHR 0x0A] @ ''line2'' @ [CHR 0x0A] @ ''line3'',
             v_metadata = Map.empty,
             v_createdAt = 200, v_createdBy = ''system'', v_commitMessage = ''Updated content''\<rparr>"
  have g7: "getVersion (run edit_ops) ''d1'' 7 = None"
    by (simp add: getVersion_def run_edit_ops_versions)
  have g1: "getVersion (run edit_ops) ''d1'' 1 = Some ?v1"
    by (simp add: getVersion_def run_edit_ops_versions)
  have g2: "getVersion (run edit_ops) ''d1'' 2 = Some ?v2"
    by (simp add: getVersion_def run_edit_ops_versions)
  have d: "getStoryFile (run edit_ops) ''d1'' =
     Some \<lparr>sf_id = ''d1'', sf_projectId = ''p1'', sf_filename = ''ch1.md'',
           sf_content = ''line1'' @ [CHR 0x0A] @ ''line2'' @ [CHR 0x0A] @ ''line3'',
           sf_version = 2, sf_metadata = Map.empty\<rparr>"
    by (simp add: getStoryFile_def run_edit_ops_doc)
  have l: "length (getVersions (run edit_ops) ''d1'') = 2"
    by (simp add: getVersions_def run_edit_ops_versions)
  note t7 = revert_semantics[of edit_ops "''d1''" 7 None None "''g3''" 300]
  note t1 = revert_semantics[of edit_ops "''d1''" 1 None None "''g3''" 300 ?v1]
  note t2 = revert_semantics[of edit_ops "''d1''" 2 None None "''g3''" 300 ?v2]
  have a: "revertToVersion (run edit_ops) ''d1'' 7 None None ''g3'' 300 =
     (Inl (VersionNotFound 7 ''d1''), run edit_ops)"
    using t7 g7 by (simp add: prod_eq_iff)
  have b: "\<exists>sf'. fst (revertToVersion (run edit_ops) ''d1'' 1 None None ''g3'' 300) = Inr sf' \<and>
      sf_content sf' = ''line1'' @ [CHR 0x0A] @ ''line2'' \<and> sf_version sf' = 3 \<and>
      sf_metadata sf' ''revertedFrom'' = Some (JNum 1)"
    using t1 g1 d by auto
  have c: "length (getVersions (snd (revertToVersion (run edit_ops) ''d1'' 1 None None ''g3'' 300)) ''d1'') = 3"
    using t1 g1 d l by auto
  have e: "snd (revertToVersion (run edit_ops) ''d1'' 2 None None ''g3'' 300) = run edit_ops"
    using t2 g2 d by auto
  from g7 a g1 b c g2 e show ?thesis by simp
qed

lemma diff_step_spec:
  "diff_step oldLines newLines i d =
     d\<lparr>changes := changes d @ spec_line_change oldLines newLines i,
       additions := additions d + length (filter counts_addition (spec_line_change oldLines newLines i)),
       deletions := deletions d + length (filter counts_deletion (spec_line_change oldLines newLines i))\<rparr>"
  by (simp add: diff_step_def nth_opt_def spec_line_change_def counts_addition_def counts_deletion_def)

lemma diff_loop_changes:
  "changes (diff_loop oldLines newLines maxLines i d) =
     changes d @ concat (map (spec_line_change oldLines newLines) [i..<maxLines])"
proof (induction oldLines newLines maxLines i d rule: diff_loop.induct)
  case (1 oldLines newLines maxLines i d)
  show ?case
  proof (cases "i < maxLines")
    case True
    then show ?thesis
      using 1 by (subst diff_loop.simps) (simp add: diff_step_spec upt_conv_Cons)
  next
    case False
    then show ?thesis by (subst diff_loop.simps) simp
  qed
qed

lemma diff_loop_additions:
  "additions (diff_loop oldLines newLines maxLines i d) =
     additions d + length (filter counts_addition (concat (map (spec_line_change oldLines newLines) [i..<maxLines])))"
proof (induction oldLines newLines maxLines i d rule: diff_loop.induct)
  case (1 oldLines newLines maxLines i d)
  show ?case
  proof (cases "i < maxLines")
    case True
    then show ?thesis
      using 1 by (subst diff_loop.simps) (simp add: diff_step_spec upt_conv_Cons)
  next
    case False
    then show ?thesis by (subst diff_loop.simps) simp
  qed
qed

lemma diff_loop_deletions:
  "deletions (diff_loop oldLines newLines maxLines i d) =
     deletions d + length (filter counts_deletion (concat (map (spec_line_change oldLines newLines) [i..<maxLines])))"
proof (induction oldLines newLines maxLines i d rule: diff_loop.induct)
  case (1 oldLines newLines maxLines i d)
  show ?case
  proof (cases "i < maxLines")
    case True
    then show ?thesis
      using 1 by (subst diff_loop.simps) (simp add: diff_step_spec upt_conv_Cons)
  next
    case False
    then show ?thesis by (subst diff_loop.simps) simp
  qed
qed

lemma spec_line_change_same: "spec_line_change ls ls i = []"
  by (simp add: spec_line_change_def)

lemma concat_spec_line_change_same: "concat (map (spec_line_change ls ls) xs) = []"
  by (simp add: spec_line_change_same)

lemma computeSimpleDiff_same:
  "computeSimpleDiff c c = \<lparr>additions = 0, deletions = 0, changes = []\<rparr>"
proof -
  let ?d = "computeSimpleDiff c c"
  have "changes ?d = []" "additions ?d = 0" "deletions ?d = 0"
    by (simp_all add: computeSimpleDiff_def Let_def diff_loop_changes diff_loop_additions
          diff_loop_deletions concat_spec_line_change_same)
  then show ?thesis by (cases ?d) simp
qed

lemma split_example1: "split_on (CHR 0x0A) (''line1'' @ [CHR 0x0A] @ ''line2'') = [''line1'', ''line2'']"
  by simp

lemma split_example2:
  "split_on (CHR 0x0A) (''line1'' @ [CHR 0x0A] @ ''line2'' @ [CHR 0x0A] @ ''line3'')
     = [''line1'', ''line2'', ''line3'']"
  by simp

lemma diff_example:
  "computeSimpleDiff (''line1'' @ [CHR 0x0A] @ ''line2'')
     (''line1'' @ [CHR 0x0A] @ ''line2'' @ [CHR 0x0A] @ ''line3'') =
   \<lparr>additions = 1, deletions = 0,
     changes = [\<lparr>c_type = Add, c_lineNumber = 3, c_content = ''line3''\<rparr>]\<rparr>"
proof -
  let ?d = "computeSimpleDiff (''line1'' @ [CHR 0x0A] @ ''line2'')
     (''line1'' @ [CHR 0x0A] @ ''line2'' @ [CHR 0x0A] @ ''line3'')"
  have u: "[0..<3] = [0, 1, 2]" by (simp add: upt_conv_Cons)
  have "changes ?d = [\<lparr>c_type = Add, c_lineNumber = 3, c_content = ''line3''\<rparr>]"
    "additions ?d = 1" "deletions ?d = 0"
    unfolding computeSimpleDiff_def Let_def split_example1 split_example2
      diff_loop_changes diff_loop_additions diff_loop_deletions
    by (simp_all add: u spec_line_change_def counts_addition_def counts_deletion_def)
  then show ?thesis by (cases ?d) simp
qed


lemma string_of_int_1: "string_of_int 1 = ''1''"
  by (simp add: string_of_int_def string_of_nat.simps[of "Suc 0"])

lemma run_revert_ops_versions:
  "versions (run revert_ops) ''d1'' =
     Some [\<lparr>v_id = ''g1'', v_storyFileId = ''d1'', v_version = 1,
             v_content = ''line1'' @ [CHR 0x0A] @ ''line2'', v_metadata = Map.empty,
             v_createdAt = 100, v_createdBy = ''system'', v_commitMessage = ''Initial creation''\<rparr>,
           \<lparr>v_id = ''g2'', v_storyFileId = ''d1'', v_version = 2,
             v_content = ''line1'' @ [CHR 0x0A] @ ''line2'' @ [CHR 0x0A] @ ''line3'',
             v_metadata = Map.empty,
             v_createdAt = 200, v_createdBy = ''system'', v_commitMessage = ''Updated content''\<rparr>,
           \<lparr>v_id = ''g3'', v_storyFileId = ''d1'', v_version = 3,
             v_content = ''line1'' @ [CHR 0x0A] @ ''line2'',
             v_metadata = [''revertedFrom'' \<mapsto> JNum 1],
             v_createdAt = 300, v_createdBy = ''system'',
             v_commitMessage = ''Reverted to version 1''\<rparr>]"
proof -
  have r: "run revert_ops = exec (run edit_ops) (Revert ''d1'' 1 None None ''g3'' 300)"
    by (simp add: run_def revert_ops_def)
  have g1: "getVersion (run edit_ops) ''d1'' 1 =
     Some \<lparr>v_id = ''g1'', v_storyFileId = ''d1'', v_version = 1,
             v_content = ''line1'' @ [CHR 0x0A] @ ''line2'', v_metadata = Map.empty,
             v_createdAt = 100, v_createdBy = ''system'', v_commitMessage = ''Initial creation''\<rparr>"
    by (simp add: getVersion_def run_edit_ops_versions)
  show ?thesis
    unfolding r
    by (simp add: revert_cases g1 updateStoryFile_def run_edit_ops_doc run_edit_ops_versions
          createVersion_def Let_def dflt_def string_of_int_1)
qed

text \<open>
  Claim C3. \<open>computeSimpleDiff\<close> is the positional line comparison: its change list is,
  for the line indices 0 .. max(lenOld, lenNew) - 1 in order, one "add" where only the new
  side has a line, one "delete" where only the old side has one, one "modify" where both
  have one and they differ; \<open>additions\<close> counts the "add" and "modify" entries and
  \<open>deletions\<close> the "delete" and "modify" entries. Hence two versions with identical content
  diff to \<open>{additions: 0, deletions: 0, changes: []}\<close>, and for a document created with
  "line1\nline2" and updated to "line1\nline2\nline3" the diff of versions 1 and 2 is one
  addition, no deletion, and the single change "add" at line 3 with content "line3".
\<close>

theorem diff_is_positional:
  "(let oldLines = split_on (CHR 0x0A) oldContent;
        newLines = split_on (CHR 0x0A) newContent;
        d = computeSimpleDiff oldContent newContent
    in changes d =
         concat (map (spec_line_change oldLines newLines) [0..<max (length oldLines) (length newLines)]) \<and>
       additions d = length (filter counts_addition (changes d)) \<and>
       deletions d = length (filter counts_deletion (changes d))) \<and>
   (getVersion s i a = Some va \<and> getVersion s i b = Some vb \<and> v_content va = v_content vb \<longrightarrow>
      getDiff s i a b = Inr \<lparr>additions = 0, deletions = 0, changes = []\<rparr>) \<and>
   getDiff (run edit_ops) ''d1'' 1 2 =
     Inr \<lparr>additions = 1, deletions = 0,
          changes = [\<lparr>c_type = Add, c_lineNumber = 3, c_content = ''line3''\<rparr>]\<rparr>"
proof (intro conjI impI)
  show "let oldLines = split_on (CHR 0x0A) oldContent;
        newLines = split_on (CHR 0x0A) newContent;
        d = computeSimpleDiff oldContent newContent
    in changes d =
         concat (map (spec_line_change oldLines newLines) [0..<max (length oldLines) (length newLines)]) \<and>
       additions d = length (filter counts_addition (changes d)) \<and>
       deletions d = length (filter counts_deletion (changes d))"
    by (simp add: Let_def computeSimpleDiff_def diff_loop_changes diff_loop_additions diff_loop_deletions)
next
  assume "getVersion s i a = Some va \<and> getVersion s i b = Some vb \<and> v_content va = v_content vb"
  then show "getDiff s i a b = Inr \<lparr>additions = 0, deletions = 0, changes = []\<rparr>"
    by (simp add: getDiff_def computeSimpleDiff_same)
next
  show "getDiff (run edit_ops) ''d1'' 1 2 =
     Inr \<lparr>additions = 1, deletions = 0,
          changes = [\<lparr>c_type = Add, c_lineNumber = 3, c_content = ''line3''\<rparr>]\<rparr>"
    using diff_example by (simp add: getDiff_def getVersion_def run_edit_ops_versions)
qed

theorem diff_is_positional_witness:
  "changes (computeSimpleDiff (''a'' @ [CHR 0x0A] @ ''b'' @ [CHR 0x0A] @ ''c'') (''a'' @ [CHR 0x0A] @ ''x'')) =
     [\<lparr>c_type = Modify, c_lineNumber = 2, c_content = ''x''\<rparr>,
      \<lparr>c_type = Delete, c_lineNumber = 3, c_content = ''c''\<rparr>] \<and>
   additions (computeSimpleDiff (''a'' @ [CHR 0x0A] @ ''b'' @ [CHR 0x0A] @ ''c'') (''a'' @ [CHR 0x0A] @ ''x'')) = 1 \<and>
   deletions (computeSimpleDiff (''a'' @ [CHR 0x0A] @ ''b'' @ [CHR 0x0A] @ ''c'') (''a'' @ [CHR 0x0A] @ ''x'')) = 2 \<and>
   map_option v_content (getVersion (run revert_ops) ''d1'' 1) =
     map_option v_content (getVersion (run revert_ops) ''d1'' 3) \<and>
   getVersion (run revert_ops) ''d1'' 1 \<noteq> None \<and>
   getDiff (run revert_ops) ''d1'' 1 3 = Inr \<lparr>additions = 0, deletions = 0, changes = []\<rparr>"
proof -
  let ?v1 = "\<lparr>v_id = ''g1'', v_storyFileId = ''d1'', v_version = 1,
             v_content = ''line1'' @ [CHR 0x0A] @ ''line2'', v_metadata = Map.empty,
             v_createdAt = 100, v_createdBy = ''system'', v_commitMessage = ''Initial creation''\<rparr>"
  let ?v3 = "\<lparr>v_id = ''g3'', v_storyFileId = ''d1'', v_version = 3,
             v_content = ''line1'' @ [CHR 0x0A] @ ''line2'',
             v_metadata = [''revertedFrom'' \<mapsto> JNum 1],
             v_createdAt = 300, v_createdBy = ''system'',
             v_commitMessage = ''Reverted to version 1''\<rparr>"
  have g1: "getVersion (run revert_ops) ''d1'' 1 = Some ?v1"
    by (simp add: getVersion_def run_revert_ops_versions)
  have g3: "getVersion (run revert_ops) ''d1'' 3 = Some ?v3"
    by (simp add: getVersion_def run_revert_ops_versions)
  have u: "[0..<3] = [0, 1, 2]" by (simp add: upt_conv_Cons)
  note t = diff_is_positional[of "''a'' @ [CHR 0x0A] @ ''b'' @ [CHR 0x0A] @ ''c''"
             "''a'' @ [CHR 0x0A] @ ''x''" "run revert_ops" "''d1''" 1 ?v1 3 ?v3]
  from t have c: "changes (computeSimpleDiff (''a'' @ [CHR 0x0A] @ ''b'' @ [CHR 0x0A] @ ''c'') (''a'' @ [CHR 0x0A] @ ''x'')) =
     [\<lparr>c_type = Modify, c_lineNumber = 2, c_content = ''x''\<rparr>,
      \<lparr>c_type = Delete, c_lineNumber = 3, c_content = ''c''\<rparr>]"
    by (simp add: Let_def u spec_line_change_def)
  from t have ad: "additions (computeSimpleDiff (''a'' @ [CHR 0x0A] @ ''b'' @ [CHR 0x0A] @ ''c'') (''a'' @ [CHR 0x0A] @ ''x'')) = 1"
    unfolding Let_def c by (simp add: counts_addition_def)
  from t have de: "deletions (computeSimpleDiff (''a'' @ [CHR 0x0A] @ ''b'' @ [CHR 0x0A] @ ''c'') (''a'' @ [CHR 0x0A] @ ''x'')) = 2"
    unfolding Let_def c by (simp add: counts_deletion_def)
  from t g1 g3 have z: "getDiff (run revert_ops) ''d1'' 1 3 = Inr \<lparr>additions = 0, deletions = 0, changes = []\<rparr>"
    by simp
  from c ad de z g1 g3 show ?thesis by simp
qed

section \<open>Properties of the provider gateway\<close>

lemma succeeds_registered: "succeeds mgr prompt options n \<Longrightarrow> registered mgr n"
  by (auto simp: succeeds_def call_provider_def registered_def split: option.splits)

lemma find_succeeds_filter:
  "find (succeeds mgr prompt options) (filter (registered mgr) ns) =
   find (succeeds mgr prompt options) ns"
  by (induction ns) (auto dest: succeeds_registered)

lemma try_providers_result:
  "snd (try_providers (providers mgr) prompt options ns) =
     (case find (succeeds mgr prompt options) ns of
        None \<Rightarrow> Inl AllProvidersFailed
      | Some n \<Rightarrow> (case call_provider mgr prompt options n of
                     Some r \<Rightarrow> r | None \<Rightarrow> Inl AllProvidersFailed))"
proof (induction ns)
  case Nil
  show ?case by simp
next
  case (Cons n ns)
  show ?case
  proof (cases "providers mgr n")
    case None
    then show ?thesis using Cons by (simp add: succeeds_def call_provider_def)
  next
    case (Some p)
    then show ?thesis using Cons
      by (cases "p_generateText p prompt options")
         (simp_all add: succeeds_def call_provider_def split_beta)
  qed
qed

lemma try_providers_calls:
  "calls_of (fst (try_providers (providers mgr) prompt options ns)) =
     takeWhile (\<lambda>n. \<not> succeeds mgr prompt options n) (filter (registered mgr) ns) @
     (case find (succeeds mgr prompt options) ns of None \<Rightarrow> [] | Some n \<Rightarrow> [n])"
proof (induction ns)
  case Nil
  show ?case by simp
next
  case (Cons n ns)
  show ?case
  proof (cases "providers mgr n")
    case None
    then show ?thesis using Cons by (simp add: succeeds_def call_provider_def registered_def)
  next
    case (Some p)
    then show ?thesis using Cons
      by (cases "p_generateText p prompt options")
         (simp_all add: succeeds_def call_provider_def registered_def split_beta)
  qed
qed

lemma attempt_list_eq:
  "filter (registered mgr) (providersToTry mgr options) = spec_attempt_list mgr options"
proof (cases "lo_preferredProvider options")
  case None
  then show ?thesis
    by (simp add: providersToTry_def spec_attempt_list_def)
next
  case (Some p)
  have "\<not> registered mgr p \<Longrightarrow>
        filter (\<lambda>x. x \<noteq> p \<and> registered mgr x) (fallbackOrder mgr) = filter (registered mgr) (fallbackOrder mgr)"
    by (rule filter_cong) auto
  then show ?thesis using Some
    by (auto simp: providersToTry_def spec_attempt_list_def conj_commute)
qed

lemma distinct_attempt:
  "distinct (fallbackOrder mgr) \<Longrightarrow> distinct (spec_attempt_list mgr options)"
  by (auto simp: spec_attempt_list_def split: option.splits)

lemma distinct_takeWhile_find:
  assumes "distinct xs"
  shows "distinct (takeWhile (\<lambda>n. \<not> P n) xs @ (case find P xs of None \<Rightarrow> [] | Some n \<Rightarrow> [n]))"
proof (cases "find P xs")
  case None
  then show ?thesis using assms by simp
next
  case (Some n)
  then have "P n" by (auto simp: find_Some_iff)
  then have "n \<notin> set (takeWhile (\<lambda>n. \<not> P n) xs)" by (auto dest: set_takeWhileD)
  then show ?thesis using assms Some by simp
qed

text \<open>
  Claim C4. \<open>generateText\<close> of the manager runs over the attempt list made of the
  preferred provider, if given and registered, followed by the remaining registered
  providers in fallback order. It calls the providers of that list in order up to and
  including the first whose call resolves, each at most once (the fallback order having no
  duplicates), and returns that provider's response. It fails exactly when every provider
  of the list has failed, having then called each of them, and the failure is always the
  all-providers-failed error, never a provider's own error.
\<close>

theorem gateway_fallback:
  "(let attempt = spec_attempt_list mgr options;
        events = fst (generateText mgr prompt options);
        result = snd (generateText mgr prompt options)
    in attempt = filter (registered mgr) (providersToTry mgr options) \<and>
       (case find (succeeds mgr prompt options) attempt of
          None \<Rightarrow> result = Inl AllProvidersFailed
        | Some n \<Rightarrow> call_provider mgr prompt options n = Some result \<and> (\<exists>r. result = Inr r)) \<and>
       calls_of events =
         takeWhile (\<lambda>n. \<not> succeeds mgr prompt options n) attempt @
         (case find (succeeds mgr prompt options) attempt of None \<Rightarrow> [] | Some n \<Rightarrow> [n]) \<and>
       ((result = Inl AllProvidersFailed) = (\<forall>n \<in> set attempt. \<not> succeeds mgr prompt options n)) \<and>
       (\<forall>e. result \<noteq> Inl (ProviderFailure e)) \<and>
       (distinct (fallbackOrder mgr) \<longrightarrow> distinct attempt \<and> distinct (calls_of events)))"
proof -
  let ?ns = "providersToTry mgr options"
  let ?attempt = "spec_attempt_list mgr options"
  let ?succ = "succeeds mgr prompt options"
  let ?result = "snd (generateText mgr prompt options)"
  let ?events = "fst (generateText mgr prompt options)"
  have at: "?attempt = filter (registered mgr) ?ns" by (simp add: attempt_list_eq)
  have fnd: "find ?succ ?attempt = find ?succ ?ns"
    unfolding at by (rule find_succeeds_filter)
  have res: "?result = (case find ?succ ?attempt of
        None \<Rightarrow> Inl AllProvidersFailed
      | Some n \<Rightarrow> (case call_provider mgr prompt options n of
                     Some r \<Rightarrow> r | None \<Rightarrow> Inl AllProvidersFailed))"
    unfolding fnd generateText_def by (rule try_providers_result)
  have calls: "calls_of ?events =
         takeWhile (\<lambda>n. \<not> ?succ n) ?attempt @
         (case find ?succ ?attempt of None \<Rightarrow> [] | Some n \<Rightarrow> [n])"
    using try_providers_calls[of mgr prompt options ?ns]
    by (simp add: at find_succeeds_filter generateText_def)
  have c1: "case find ?succ ?attempt of
          None \<Rightarrow> ?result = Inl AllProvidersFailed
        | Some n \<Rightarrow> call_provider mgr prompt options n = Some ?result \<and> (\<exists>r. ?result = Inr r)"
  proof (cases "find ?succ ?attempt")
    case None
    then show ?thesis using res by simp
  next
    case (Some n)
    then have "?succ n" by (auto simp: find_Some_iff)
    then show ?thesis using res Some
      by (auto simp: succeeds_def split: option.splits sum.splits)
  qed
  have c2: "(?result = Inl AllProvidersFailed) = (\<forall>n \<in> set ?attempt. \<not> ?succ n)"
  proof (cases "find ?succ ?attempt")
    case None
    then have "?result = Inl AllProvidersFailed" using c1 by simp
    moreover have "\<forall>n \<in> set ?attempt. \<not> ?succ n" using None by (auto simp: find_None_iff)
    ultimately show ?thesis by simp
  next
    case (Some n)
    then have "?succ n" "n \<in> set ?attempt" by (auto simp: find_Some_iff)
    then show ?thesis using c1 Some by auto
  qed
  have c3: "\<forall>e. ?result \<noteq> Inl (ProviderFailure e)"
    using c1 by (cases "find ?succ ?attempt") auto
  have c4: "distinct (fallbackOrder mgr) \<longrightarrow> distinct ?attempt \<and> distinct (calls_of ?events)"
    unfolding calls using distinct_attempt[of mgr options] distinct_takeWhile_find[of ?attempt ?succ]
    by blast
  show ?thesis
    unfolding Let_def using at c1 calls c2 c3 c4 by blast
qed


lemma fake_attempt:
  "spec_attempt_list fake_manager (preferring ''Anthropic'') = [''Anthropic'', ''Gemini'', ''OpenAI'']"
  by (simp add: spec_attempt_list_def fake_manager_def preferring_def registered_def)

lemma fake_succeeds:
  "\<not> succeeds fake_manager prompt options ''Anthropic''"
  "\<not> succeeds fake_manager prompt options ''Gemini''"
  "succeeds fake_manager prompt options ''OpenAI''"
  by (simp_all add: succeeds_def call_provider_def fake_manager_def rejecting_provider_def
        resolving_provider_def)

lemma shipped_attempt:
  "spec_attempt_list (new_manager l) no_options = [''Gemini'', ''OpenAI'', ''Anthropic'']"
  by (simp add: spec_attempt_list_def new_manager_def no_options_def registered_def)

lemma shipped_fails:
  "\<not> succeeds (new_manager l) prompt options ''Anthropic''"
  "\<not> succeeds (new_manager l) prompt options ''Gemini''"
  "\<not> succeeds (new_manager l) prompt options ''OpenAI''"
  by (simp_all add: succeeds_def call_provider_def new_manager_def
        GeminiProvider_def OpenAIProvider_def AnthropicProvider_def
        Gemini_generateText_def OpenAI_generateText_def Anthropic_generateText_def
        callGemini_def callOpenAI_def callAnthropic_def)

theorem gateway_fallback_witness:
  "distinct (fallbackOrder fake_manager) \<and>
   spec_attempt_list fake_manager (preferring ''Anthropic'') = [''Anthropic'', ''Gemini'', ''OpenAI''] \<and>
   snd (generateText fake_manager ''hi'' (preferring ''Anthropic'')) = Inr (fake_response ''OpenAI'') \<and>
   calls_of (fst (generateText fake_manager ''hi'' (preferring ''Anthropic''))) =
     [''Anthropic'', ''Gemini'', ''OpenAI''] \<and>
   spec_attempt_list (new_manager 0) no_options = [''Gemini'', ''OpenAI'', ''Anthropic''] \<and>
   \<not> succeeds (new_manager 0) ''hi'' no_options ''Gemini'' \<and>
   \<not> succeeds (new_manager 0) ''hi'' no_options ''OpenAI'' \<and>
   \<not> succeeds (new_manager 0) ''hi'' no_options ''Anthropic'' \<and>
   snd (generateText (new_manager 0) ''hi'' no_options) = Inl AllProvidersFailed \<and>
   calls_of (fst (generateText (new_manager 0) ''hi'' no_options)) = [''Gemini'', ''OpenAI'', ''Anthropic'']"
proof -
  note t1 = gateway_fallback[of fake_manager "preferring ''Anthropic''" "''hi''",
              unfolded Let_def fake_attempt]
  note t2 = gateway_fallback[of "new_manager 0" no_options "''hi''",
              unfolded Let_def shipped_attempt]
  have d: "distinct (fallbackOrder fake_manager)" by (simp add: fake_manager_def)
  have c: "call_provider fake_manager ''hi'' (preferring ''Anthropic'') ''OpenAI'' =
             Some (Inr (fake_response ''OpenAI''))"
    by (simp add: call_provider_def fake_manager_def resolving_provider_def)
  from t1 have r1: "snd (generateText fake_manager ''hi'' (preferring ''Anthropic'')) =
      Inr (fake_response ''OpenAI'')"
    by (simp add: fake_succeeds c)
  from t1 have c1: "calls_of (fst (generateText fake_manager ''hi'' (preferring ''Anthropic''))) =
     [''Anthropic'', ''Gemini'', ''OpenAI'']"
    by (simp add: fake_succeeds)
  have a2: "\<forall>n \<in> set (spec_attempt_list (new_manager 0) no_options).
       \<not> succeeds (new_manager 0) ''hi'' no_options n"
    by (simp add: shipped_attempt shipped_fails)
  from t2 have r2: "snd (generateText (new_manager 0) ''hi'' no_options) = Inl AllProvidersFailed"
    by (simp add: shipped_fails)
  from t2 have c2: "calls_of (fst (generateText (new_manager 0) ''hi'' no_options)) =
     [''Gemini'', ''OpenAI'', ''Anthropic'']"
    by (simp add: shipped_fails)
  from d fake_attempt r1 c1 a2 r2 c2 shipped_attempt[of 0] shipped_fails[of 0 "''hi''" no_options]
  show ?thesis by blast
qed

section \<open>Properties of the usage monitor\<close>

lemma sessionMetrics_recordSession:
  "sessionMetrics (recordSession m s) = slice_last 1000 (sessionMetrics m @ [s])"
  by (simp add: recordSession_def Let_def slice_last_def)

lemma slice_last_snoc:
  "slice_last n (slice_last n xs @ [x]) = slice_last n (xs @ [x])"
  by (cases "length xs \<le> n") (auto simp: slice_last_def Suc_diff_le)

lemma sessionMetrics_foldl:
  "sessionMetrics (foldl recordSession m ss) = slice_last 1000 (sessionMetrics m @ ss)"
  if "length (sessionMetrics m) \<le> 1000"
  using that
proof (induction ss arbitrary: m rule: rev_induct)
  case Nil
  then show ?case by (simp add: slice_last_def)
next
  case (snoc s ss)
  have "sessionMetrics (foldl recordSession m (ss @ [s])) =
          slice_last 1000 (sessionMetrics (foldl recordSession m ss) @ [s])"
    by (simp add: sessionMetrics_recordSession)
  also have "\<dots> = slice_last 1000 (slice_last 1000 (sessionMetrics m @ ss) @ [s])"
    using snoc by simp
  also have "\<dots> = slice_last 1000 ((sessionMetrics m @ ss) @ [s])"
    by (rule slice_last_snoc)
  finally show ?case by simp
qed

text \<open>
  Claim C7. The monitor's session history is a first-in first-out buffer of capacity
  1000: \<open>recordSession\<close> appends the session and keeps the last 1000 entries, so after
  recording any sequence of sessions into a fresh monitor exactly its last 1000 (all of
  them if fewer) are retained, in recording order; for 1001 sessions that is all but the
  first.
\<close>

theorem session_history_is_fifo_1000:
  "sessionMetrics (recordSession m s) =
     drop (Suc (length (sessionMetrics m)) - 1000) (sessionMetrics m @ [s]) \<and>
   sessionMetrics (foldl recordSession new_monitor ss) = drop (length ss - 1000) ss \<and>
   length (sessionMetrics (foldl recordSession new_monitor ss)) = min 1000 (length ss) \<and>
   (length ss = 1001 \<longrightarrow> sessionMetrics (foldl recordSession new_monitor ss) = tl ss)"
proof -
  have a: "sessionMetrics (foldl recordSession new_monitor ss) = drop (length ss - 1000) ss"
    using sessionMetrics_foldl[of new_monitor ss] by (simp add: new_monitor_def slice_last_def)
  have b: "length ss = 1001 \<longrightarrow> drop (length ss - 1000) ss = tl ss"
    by (simp add: drop_Suc)
  show ?thesis
    using a b by (auto simp: sessionMetrics_recordSession slice_last_def)
qed

theorem session_history_is_fifo_1000_witness:
  "length (map (\<lambda>n. mk_session (string_of_nat n) ''a1'' (int n) 1 1 1) [0..<1001]) = 1001 \<and>
   sessionMetrics (foldl recordSession new_monitor
       (map (\<lambda>n. mk_session (string_of_nat n) ''a1'' (int n) 1 1 1) [0..<1001])) =
     map (\<lambda>n. mk_session (string_of_nat n) ''a1'' (int n) 1 1 1) [1..<1001]"
proof -
  let ?ss = "map (\<lambda>n. mk_session (string_of_nat n) ''a1'' (int n) 1 1 1) [0..<1001]"
  have l: "length ?ss = 1001" by simp
  have t: "tl ?ss = map (\<lambda>n. mk_session (string_of_nat n) ''a1'' (int n) 1 1 1) [1..<1001]"
    by (simp add: map_tl upt_conv_Cons[of 0])
  from session_history_is_fifo_1000[of _ _ ?ss] l
  have "sessionMetrics (foldl recordSession new_monitor ?ss) = tl ?ss" by blast
  with l t show ?thesis by simp
qed







lemma sort_Nil_iff: "(sort_key f xs = []) = (xs = [])"
  by (metis length_sort length_0_conv)













section \<open>Properties of the agent loader and of prompt composition\<close>

lemma yaml_match_section_doc:
  "yaml_match section_doc = Some section_yaml"
  by code_simp

lemma parse_section_doc:
  "parseSimpleYAML section_yaml = Inl (TypeError ''Cannot set properties'')"
  by code_simp

lemma yaml_match_notes_doc: "yaml_match notes_doc = None"
  by code_simp

lemma parse_writer_file:
  "parseAgentFile demo_fs ''bmad/agents/writer.md'' =
     ([FailedToParseYaml ''bmad/agents/writer.md'' (TypeError ''Cannot set properties'')], Inr None)"
  by (simp add: parseAgentFile_def demo_fs_def yaml_match_section_doc parse_section_doc)

lemma parse_notes_file:
  "parseAgentFile demo_fs ''bmad/agents/notes.md'' = ([], Inr None)"
  by (simp add: parseAgentFile_def demo_fs_def yaml_match_notes_doc)

lemma loadAgents_raises_only_on_readdir:
  "(\<exists>e. snd (loadAgents svc fs) = Inl e) =
   (\<exists>e. readdirSync fs (path_join (bmadPath svc) ''agents'') = Inl e)"
  by (auto simp: loadAgents_def Let_def split_beta split: sum.splits)

lemma yaml_match_plain_doc: "yaml_match plain_doc = Some plain_yaml"
  by code_simp

lemma parse_plain_yaml:
  "parseSimpleYAML plain_yaml =
     Inr (JObj [(''agent'', JObj [(''id'', JStr ''writer''), (''name'', JStr ''Writer''),
                                  (''title'', JStr ''Novelist'')])])"
  by code_simp

lemma load_single_section_agent:
  "fst (new_service plain_fs 0 (Some ''bmad'')) = [] \<and>
   map_sum id agents (snd (new_service plain_fs 0 (Some ''bmad''))) =
     Inr [(JStr ''writer'',
           \<lparr>a_id = JStr ''writer'', a_name = JStr ''Writer'', a_title = JStr ''Novelist'',
            a_persona = default_persona, a_commands = JObj [], a_dependencies = JObj []\<rparr>)]"
proof -
  have j: "path_join ''bmad'' ''agents'' = ''bmad/agents''"
    "path_join ''bmad/agents'' ''writer.md'' = ''bmad/agents/writer.md''"
    "path_join ''bmad/agents'' ''notes.md'' = ''bmad/agents/notes.md''"
    by (simp_all add: path_join_def)
  have e: "ends_with ''writer.md'' ''.md''" "ends_with ''notes.md'' ''.md''"
    by (simp_all add: ends_with_def)
  have d: "readdirSync plain_fs ''bmad/agents'' = Inr [''notes.md'', ''writer.md'']"
    by (simp add: plain_fs_def)
  have n: "parseAgentFile plain_fs ''bmad/agents/notes.md'' = ([], Inr None)"
    by (simp add: parseAgentFile_def plain_fs_def yaml_match_notes_doc)
  have w: "parseAgentFile plain_fs ''bmad/agents/writer.md'' =
     ([], Inr (Some \<lparr>a_id = JStr ''writer'', a_name = JStr ''Writer'', a_title = JStr ''Novelist'',
            a_persona = default_persona, a_commands = JObj [], a_dependencies = JObj []\<rparr>))"
    by (simp add: parseAgentFile_def plain_fs_def yaml_match_plain_doc parse_plain_yaml
          get_prop_opt_def js_or_def)
  show ?thesis
    by (simp add: new_service_def loadAgents_def dflt_def Let_def j d e n w)
qed

text \<open>
  Claim C5, at an input where the code departs from it. The directory holds an agent
  definition in the documented format, with the sections \<open>agent\<close>, \<open>persona\<close> and
  \<open>commands\<close>, and a document without a fenced block. Loading raises nothing, but the
  registry is empty: \<open>parseSimpleYAML\<close> files every section after the first under the
  first one and reads the new current object from the wrong place, so the entry under
  \<open>commands\<close> is written through \<open>undefined\<close>; the error is caught, logged, and the
  well-formed agent is skipped.
\<close>

theorem load_skips_sectioned_agent:
  "fst (new_service demo_fs 0 (Some ''bmad'')) =
     [FailedToParseYaml ''bmad/agents/writer.md'' (TypeError ''Cannot set properties'')] \<and>
   map_sum id agents (snd (new_service demo_fs 0 (Some ''bmad''))) = Inr []"
proof -
  have j: "path_join ''bmad'' ''agents'' = ''bmad/agents''"
    "path_join ''bmad/agents'' ''writer.md'' = ''bmad/agents/writer.md''"
    "path_join ''bmad/agents'' ''notes.md'' = ''bmad/agents/notes.md''"
    by (simp_all add: path_join_def)
  have e: "ends_with ''writer.md'' ''.md''" "ends_with ''notes.md'' ''.md''"
    by (simp_all add: ends_with_def)
  have d: "readdirSync demo_fs ''bmad/agents'' = Inr [''writer.md'', ''notes.md'']"
    by (simp add: demo_fs_def)
  show ?thesis
    by (simp add: new_service_def loadAgents_def dflt_def Let_def j d e parse_writer_file parse_notes_file)
qed

lemma collect_to_string_strs: "collect (map (to_string \<circ> JStr) ps) = Inr ps"
  by (induction ps) simp_all

lemma principle_lines_strs:
  "principle_lines (JArr (map JStr ps)) = Inr (join_with nl (map ((@) ''- '') ps))"
  by (simp add: principle_lines_def collect_to_string_strs)

lemma collect_input_strs:
  "collect (map ((\<lambda>(k, v). case to_string v of Inl e \<Rightarrow> Inl e | Inr s \<Rightarrow> Inr (k @ '': '' @ s)) \<circ>
                 (\<lambda>(k, v). (k, JStr v))) kvs) =
   Inr (map (\<lambda>(k, v). k @ '': '' @ v) kvs)"
  by (induction kvs) auto

lemma input_lines_strs:
  "input_lines (map (\<lambda>(k, v). (k, JStr v)) kvs) =
     Inr (join_with nl (map (\<lambda>(k, v). k @ '': '' @ v) kvs))"
  by (simp add: input_lines_def collect_input_strs)

lemma js_trim_template:
  "js_trim (nl @ ''You are '' @ body @ ''.'' @ nl @ ''    '') = ''You are '' @ body @ ''.''"
proof -
  have a: "dropWhile js_ws (nl @ ''You are '' @ body @ ''.'' @ nl @ ''    '') =
           ''You are '' @ body @ ''.'' @ nl @ ''    ''"
    by (simp add: nl_def js_ws_def)
  have b: "rev (''You are '' @ body @ ''.'' @ nl @ ''    '') =
           ''    '' @ nl @ ''.'' @ rev (''You are '' @ body)"
    by (simp add: nl_def)
  have c: "dropWhile js_ws (''    '' @ nl @ ''.'' @ rev (''You are '' @ body)) =
           ''.'' @ rev (''You are '' @ body)"
    by (simp add: nl_def js_ws_def)
  show ?thesis
    unfolding js_trim_def a b c by simp
qed


text \<open>
  Claim C9. Prompt composition is a function of its four arguments alone: two
  compositions with equal agent, action, inputs and document context give the same
  outcome (the same prompt text, or the same error), whatever the states of the services
  they run in. For an agent whose name, role and style are texts and whose principles
  are a list of texts, and for inputs with text values, the prompt is the template filled
  in, without the template's leading line break and trailing blanks.
\<close>

theorem prompt_composition_pure:
  "(agent = agent' \<and> action = action' \<and> inputs = inputs' \<and> storyContext = storyContext' \<longrightarrow>
      buildAgentPrompt svc agent action inputs storyContext =
      buildAgentPrompt svc' agent' action' inputs' storyContext') \<and>
   (a_name agent = JStr name \<and>
    a_persona agent = JObj [(''role'', JStr role), (''style'', JStr style),
                            (''core_principles'', JArr (map JStr principles))] \<and>
    inputs = map (\<lambda>(k, v). (k, JStr v)) entries \<longrightarrow>
      buildAgentPrompt svc agent action inputs storyContext =
        Inr (''You are '' @ name @ '', '' @ role @ ''.'' @ nl @ nl @
             style @ nl @ nl @
             ''Core Principles:'' @ nl @
             join_with nl (map ((@) ''- '') principles) @ nl @ nl @
             ''Current Story Context:'' @ nl @
             storyContext @ nl @ nl @
             ''User Request: '' @ action @ nl @ nl @
             ''Additional Inputs:'' @ nl @
             join_with nl (map (\<lambda>(k, v). k @ '': '' @ v) entries) @ nl @ nl @
             ''Please provide your expert response as '' @ name @ ''.''))"
proof (intro conjI impI)
  assume "agent = agent' \<and> action = action' \<and> inputs = inputs' \<and> storyContext = storyContext'"
  then show "buildAgentPrompt svc agent action inputs storyContext =
      buildAgentPrompt svc' agent' action' inputs' storyContext'"
    by (simp add: buildAgentPrompt_def)
next
  assume h: "a_name agent = JStr name \<and>
    a_persona agent = JObj [(''role'', JStr role), (''style'', JStr style),
                            (''core_principles'', JArr (map JStr principles))] \<and>
    inputs = map (\<lambda>(k, v). (k, JStr v)) entries"
  let ?body = "name @ '', '' @ role @ ''.'' @ nl @ nl @
             style @ nl @ nl @
             ''Core Principles:'' @ nl @
             join_with nl (map ((@) ''- '') principles) @ nl @ nl @
             ''Current Story Context:'' @ nl @
             storyContext @ nl @ nl @
             ''User Request: '' @ action @ nl @ nl @
             ''Additional Inputs:'' @ nl @
             join_with nl (map (\<lambda>(k, v). k @ '': '' @ v) entries) @ nl @ nl @
             ''Please provide your expert response as '' @ name"
  have "buildAgentPrompt svc agent action inputs storyContext =
          Inr (js_trim (nl @ ''You are '' @ ?body @ ''.'' @ nl @ ''    ''))"
    using h
    by (simp add: buildAgentPrompt_def and_then_def get_prop_def principle_lines_strs
          input_lines_strs del: map_map)
  then show "buildAgentPrompt svc agent action inputs storyContext =
        Inr (''You are '' @ name @ '', '' @ role @ ''.'' @ nl @ nl @
             style @ nl @ nl @
             ''Core Principles:'' @ nl @
             join_with nl (map ((@) ''- '') principles) @ nl @ nl @
             ''Current Story Context:'' @ nl @
             storyContext @ nl @ nl @
             ''User Request: '' @ action @ nl @ nl @
             ''Additional Inputs:'' @ nl @
             join_with nl (map (\<lambda>(k, v). k @ '': '' @ v) entries) @ nl @ nl @
             ''Please provide your expert response as '' @ name @ ''.'')"
    unfolding js_trim_template by simp
qed

theorem prompt_composition_pure_witness:
  "svc_a \<noteq> svc_b \<and>
   buildAgentPrompt svc_a writer ''Draft ch1'' [(''userId'', JStr ''u1''), (''n'', JStr ''3'')] ''Once'' =
     Inr writer_prompt \<and>
   buildAgentPrompt svc_b writer ''Draft ch1'' [(''userId'', JStr ''u1''), (''n'', JStr ''3'')] ''Once'' =
     Inr writer_prompt"
proof -
  have ne: "svc_a \<noteq> svc_b"
  proof
    assume "svc_a = svc_b"
    then have "bmadPath svc_a = bmadPath svc_b" by simp
    then show False by (simp add: svc_a_def svc_b_def)
  qed
  note t = prompt_composition_pure[where agent = writer and agent' = writer
      and action = "''Draft ch1''" and action' = "''Draft ch1''"
      and inputs = "[(''userId'', JStr ''u1''), (''n'', JStr ''3'')]"
      and inputs' = "[(''userId'', JStr ''u1''), (''n'', JStr ''3'')]"
      and storyContext = "''Once''" and storyContext' = "''Once''"
      and svc = svc_a and svc' = svc_b
      and name = "''Writer''" and role = "''a novelist''" and style = "''Terse.''"
      and principles = "[''Show'', ''Cut'']" and entries = "[(''userId'', ''u1''), (''n'', ''3'')]"]
  have h: "a_name writer = JStr ''Writer'' \<and>
    a_persona writer = JObj [(''role'', JStr ''a novelist''), (''style'', JStr ''Terse.''),
                             (''core_principles'', JArr (map JStr [''Show'', ''Cut'']))] \<and>
    [(''userId'', JStr ''u1''), (''n'', JStr ''3'')] =
      map (\<lambda>(k, v). (k, JStr v)) [(''userId'', ''u1''), (''n'', ''3'')]"
    by (simp add: writer_def)
  have r: "''You are '' @ ''Writer'' @ '', '' @ ''a novelist'' @ ''.'' @ nl @ nl @
             ''Terse.'' @ nl @ nl @
             ''Core Principles:'' @ nl @
             join_with nl (map ((@) ''- '') [''Show'', ''Cut'']) @ nl @ nl @
             ''Current Story Context:'' @ nl @
             ''Once'' @ nl @ nl @
             ''User Request: '' @ ''Draft ch1'' @ nl @ nl @
             ''Additional Inputs:'' @ nl @
             join_with nl (map (\<lambda>(k, v). k @ '': '' @ v) [(''userId'', ''u1''), (''n'', ''3'')]) @ nl @ nl @
             ''Please provide your expert response as '' @ ''Writer'' @ ''.'' = writer_prompt"
    by (simp add: writer_prompt_def)
  from mp[OF conjunct2[OF t] h]
  have a: "buildAgentPrompt svc_a writer ''Draft ch1''
      [(''userId'', JStr ''u1''), (''n'', JStr ''3'')] ''Once'' = Inr writer_prompt"
    unfolding r .
  from conjunct1[OF t]
  have "buildAgentPrompt svc_a writer ''Draft ch1'' [(''userId'', JStr ''u1''), (''n'', JStr ''3'')] ''Once'' =
        buildAgentPrompt svc_b writer ''Draft ch1'' [(''userId'', JStr ''u1''), (''n'', JStr ''3'')] ''Once''"
    by blast
  with a ne show ?thesis by simp
qed

end
